theory Spec2Isabelle
  imports Main "HOL-Library.AList"
begin

section \<open>JavaScript strings and numbers\<close>

text \<open>
  A JavaScript string is the list of its code units, and \<open>length\<close> is the \<open>.length\<close>
  of the source. The model covers the code units 0..255 (ASCII and Latin-1), the range of
  \<^typ>\<open>char\<close> and of the values of response headers.
\<close>

definition isDigit :: "char \<Rightarrow> bool" where
  \<comment> \<open>the class \<open>\d\<close> of a regular expression without the unicode flag: 0 to 9\<close>
  "isDigit c = (48 \<le> (of_char c :: nat) \<and> (of_char c :: nat) \<le> 57)"

definition digitValue :: "char \<Rightarrow> nat" where
  "digitValue c = (of_char c :: nat) - 48"

definition toLowerChar :: "char \<Rightarrow> char" where
  \<comment> \<open>A to Z, and the Latin-1 capitals 0xC0 to 0xDE without the sign 0xD7\<close>
  "toLowerChar c =
     (let n = (of_char c :: nat)
      in if (65 \<le> n \<and> n \<le> 90) \<or> (192 \<le> n \<and> n \<le> 222 \<and> n \<noteq> 215)
         then char_of (n + 32) else c)"

definition toLowerCase :: "string \<Rightarrow> string" where
  "toLowerCase s = map toLowerChar s"

text \<open>
  A number of the source that comes out of \<open>parseInt\<close>: an integer or NaN.
\<close>

datatype jsnumber = NaN | Num int

definition isNaN :: "jsnumber \<Rightarrow> bool" where
  "isNaN x = (x = NaN)"

definition isWhiteSpace :: "char \<Rightarrow> bool" where
  \<comment> \<open>the white space and line terminators that \<open>parseInt\<close> skips, among the code units 0..255\<close>
  "isWhiteSpace c = ((of_char c :: nat) \<in> {9, 10, 11, 12, 13, 32, 160})"

definition digitsValue :: "string \<Rightarrow> nat" where
  "digitsValue ds = foldl (\<lambda>a c. 10 * a + digitValue c) 0 ds"

definition parseInt10 :: "string \<Rightarrow> jsnumber" where
  \<comment> \<open>\<open>parseInt(s, 10)\<close>: leading white space, a sign, the longest run of decimal digits;
      NaN when the run is empty. (The source calls it on 1 to 5 digits, where the double
      holds the integer exactly.)\<close>
  "parseInt10 s =
     (let s1 = dropWhile isWhiteSpace s;
          sgn = (case s1 of c # _ \<Rightarrow> if c = CHR ''-'' then (-1::int) else 1 | [] \<Rightarrow> 1);
          s2 = (case s1 of c # r \<Rightarrow> if c = CHR ''-'' \<or> c = CHR ''+'' then r else s1 | [] \<Rightarrow> s1);
          z = takeWhile isDigit s2
      in if z = [] then NaN else Num (sgn * int (digitsValue z)))"

definition isHexDigit :: "char \<Rightarrow> bool" where
  "isHexDigit c = (isDigit c \<or> (65 \<le> (of_char c :: nat) \<and> (of_char c :: nat) \<le> 70)
                    \<or> (97 \<le> (of_char c :: nat) \<and> (of_char c :: nat) \<le> 102))"

definition hexDigitValue :: "char \<Rightarrow> nat" where
  "hexDigitValue c = (if isDigit c then digitValue c
                      else if (of_char c :: nat) \<le> 70 then (of_char c :: nat) - 55
                      else (of_char c :: nat) - 87)"

definition js_parseInt :: "string \<Rightarrow> jsnumber" where
  \<comment> \<open>\<open>parseInt(s)\<close> without a radix: as above, in base 16 after \<open>0x\<close> or \<open>0X\<close>.
      Past \<open>2^53\<close> the source's double rounds; \<open>updatePools\<close> below takes the function
      as a parameter, and this one only serves as an instance of it.\<close>
  "js_parseInt s =
     (let s1 = dropWhile isWhiteSpace s;
          sgn = (case s1 of c # _ \<Rightarrow> if c = CHR ''-'' then (-1::int) else 1 | [] \<Rightarrow> 1);
          s2 = (case s1 of c # r \<Rightarrow> if c = CHR ''-'' \<or> c = CHR ''+'' then r else s1 | [] \<Rightarrow> s1)
      in if take 2 s2 = ''0x'' \<or> take 2 s2 = ''0X''
         then (let z = takeWhile isHexDigit (drop 2 s2)
               in if z = [] then NaN
                  else Num (sgn * int (foldl (\<lambda>a c. 16 * a + hexDigitValue c) 0 z)))
         else (let z = takeWhile isDigit s2
               in if z = [] then NaN else Num (sgn * int (digitsValue z))))"

section \<open>The regular expression of parseDuration\<close>

text \<open>
  \<open>/(\d{1,5}(h|ms|m|s))/\<close>. The alternation tries \<open>h\<close>, \<open>ms\<close>, \<open>m\<close>, \<open>s\<close>
  in this order; nothing follows it in the pattern, so the first alternative that matches
  ends the match. The result is the unit and the rest of the input.
\<close>

fun match_unit :: "string \<Rightarrow> (string \<times> string) option" where
  "match_unit [] = None"
| "match_unit (c # r) =
     (if c = CHR ''h'' then Some (''h'', r)
      else if c = CHR ''m'' \<and> (case r of [] \<Rightarrow> False | c' # _ \<Rightarrow> c' = CHR ''s'')
        then Some (''ms'', tl r)
      else if c = CHR ''m'' then Some (''m'', r)
      else if c = CHR ''s'' then Some (''s'', r)
      else None)"

text \<open>
  \<open>\d{1,5}\<close> is greedy and backtracks: \<open>match_digits k s\<close> tries \<open>k\<close> digits, then
  \<open>k - 1\<close>, down to one, each followed by the alternation. The result is the digits
  (group 1 of the reducer's pattern), the unit (group 2) and the rest of the input.
\<close>

fun match_digits :: "nat \<Rightarrow> string \<Rightarrow> (string \<times> string \<times> string) option" where
  "match_digits 0 s = None"
| "match_digits (Suc k) s =
     (if Suc k \<le> length s \<and> list_all isDigit (take (Suc k) s)
      then (case match_unit (drop (Suc k) s) of
              Some (u, r) \<Rightarrow> Some (take (Suc k) s, u, r)
            | None \<Rightarrow> match_digits k s)
      else match_digits k s)"

definition match_at :: "string \<Rightarrow> (string \<times> string \<times> string) option" where
  \<comment> \<open>the pattern tried at the start of \<open>s\<close>\<close>
  "match_at s = match_digits 5 s"

text \<open>
  \<open>duration.match(/.../g)\<close>: every match, left to right, the search going on after the
  end of the last match. The source gets \<open>null\<close> where this list is empty.
\<close>

function match_all :: "string \<Rightarrow> string list" where
  "match_all [] = []"
| "match_all (c # cs) =
     (case match_at (c # cs) of
        Some (d, u, r) \<Rightarrow> (d @ u) # match_all r
      | None \<Rightarrow> match_all cs)"
  by pat_completeness auto
termination
proof (relation "measure length")
  show "wf (measure length)" by simp
next
  fix c :: char and cs x2 d y u r
  assume m: "match_at (c # cs) = Some x2" and x2: "(d, y) = x2" and y: "(u, r) = y"
  have mu: "\<And>s u r. match_unit s = Some (u, r) \<Longrightarrow> length r < length s"
    by (case_tac s) (auto split: if_splits list.splits)
  have md: "\<And>k s d u r. match_digits k s = Some (d, u, r) \<Longrightarrow> length r < length s"
  proof -
    fix k s d u r
    show "match_digits k s = Some (d, u, r) \<Longrightarrow> length r < length s"
    proof (induction k)
      case 0
      then show ?case by simp
    next
      case (Suc k)
      then show ?case
        by (auto split: if_splits option.splits dest!: mu)
    qed
  qed
  from m x2 y have "match_digits 5 (c # cs) = Some (d, u, r)"
    by (simp add: match_at_def)
  from md [OF this] show "(r, c # cs) \<in> measure length" by simp
next
  fix c :: char and cs
  show "(cs, c # cs) \<in> measure length" by simp
qed

text \<open>
  \<open>part.match(/(\d{1,5})(h|ms|m|s)/)\<close>, without the global flag: the first match in
  \<open>part\<close>, as its two groups; \<open>None\<close> is the source's \<open>null\<close>.
\<close>

fun match_first :: "string \<Rightarrow> (string \<times> string) option" where
  "match_first [] = None"
| "match_first (c # cs) =
     (case match_at (c # cs) of
        Some (d, u, r) \<Rightarrow> Some (d, u)
      | None \<Rightarrow> match_first cs)"

section \<open>Durations of the moment library\<close>

text \<open>
  \<open>Record<string, number>\<close>: the own keys of the object in insertion order, each with its
  number. \<open>acc[unit] = num\<close> is \<^const>\<open>AList.update\<close>: it overwrites the entry of a
  key that is there and appends a new one otherwise.
\<close>

type_synonym units = "(string \<times> jsnumber) list"

text \<open>
  \<open>moment.duration\<close> is the library's, not the repository's. What the source uses of
  it: the constructor takes an object keyed by unit names, reads each unit as
  \<open>input.unit || 0\<close> (so an absent, zero or NaN entry counts 0), adds the units up in
  milliseconds, and marks the duration invalid when an entry of a unit is NaN.
  \<open>isValid()\<close> and \<open>asMilliseconds()\<close> read the two fields; the latter is NaN on an
  invalid duration. The keys are the four that the source can store.
\<close>

record duration =
  isValid :: bool
  milliseconds :: int

definition moment_keys :: "string list" where
  "moment_keys = [''hours'', ''minutes'', ''seconds'', ''milliseconds'']"

definition unit_or_zero :: "units \<Rightarrow> string \<Rightarrow> int" where
  "unit_or_zero us k = (case map_of us k of Some (Num n) \<Rightarrow> n | Some NaN \<Rightarrow> 0 | None \<Rightarrow> 0)"

definition moment_duration :: "units \<Rightarrow> duration" where
  "moment_duration us =
     \<lparr> isValid = list_all (\<lambda>k. map_of us k \<noteq> Some NaN) moment_keys,
       milliseconds = unit_or_zero us ''milliseconds''
                    + unit_or_zero us ''seconds'' * 1000
                    + unit_or_zero us ''minutes'' * 60000
                    + unit_or_zero us ''hours'' * 1000 * 60 * 60 \<rparr>"

definition moment_duration_ms :: "int \<Rightarrow> duration" where
  \<comment> \<open>\<open>moment.duration(n)\<close> of a number: that many milliseconds\<close>
  "moment_duration_ms n = moment_duration [(''milliseconds'', Num n)]"

definition asMilliseconds :: "duration \<Rightarrow> jsnumber" where
  "asMilliseconds d = (if isValid d then Num (milliseconds d) else NaN)"

section \<open>parseDuration\<close>

text \<open>What \<open>console.log\<close> receives, one constructor for each call of the source.\<close>

datatype log_msg =
    DurationTooLong string
  | NoParts string
  | InvalidPartFormat string
  | NaNWhenParsing string string
  | UnknownUnit string
  | RequestResetWarning duration string
  | TokenResetWarning duration string

definition unit_table :: "(string \<times> string) list" where
  "unit_table = [(''s'', ''seconds''), (''m'', ''minutes''), (''h'', ''hours''),
                 (''ms'', ''milliseconds'')]"

text \<open>
  The callback of \<open>parts.reduce\<close>. The accumulator of the model carries the lines logged
  so far beside the object \<open>acc\<close>. \<open>!unit\<close> holds for \<open>undefined\<close> and for the empty
  string.
\<close>

definition reducer :: "log_msg list \<times> units \<Rightarrow> string \<Rightarrow> log_msg list \<times> units" where
  "reducer la part =
     (case la of (lg, acc) \<Rightarrow>
        (case match_first part of
           None \<Rightarrow> (lg @ [InvalidPartFormat part], acc)
         | Some (s1, s2) \<Rightarrow>
             (let num = parseInt10 s1
              in if isNaN num then (lg @ [NaNWhenParsing s1 s2], acc)
                 else (case map_of unit_table s2 of
                         None \<Rightarrow> (lg @ [UnknownUnit s2], acc)
                       | Some unit \<Rightarrow>
                           if unit = [] then (lg @ [UnknownUnit s2], acc)
                           else (lg, AList.update unit num acc)))))"

definition parseDuration_console :: "string \<Rightarrow> log_msg list \<times> duration" where
  \<comment> \<open>the lines logged and the value returned\<close>
  "parseDuration_console duration =
     (if length duration > 64 then ([DurationTooLong duration], moment_duration_ms 0)
      else
        (let duration' = toLowerCase duration;
             parts = match_all duration'
         in if parts = [] then ([NoParts duration'], moment_duration_ms 0)
            else (case foldl reducer ([], []) parts of
                    (lg, units) \<Rightarrow> (lg, moment_duration units))))"

definition parseDuration :: "string \<Rightarrow> duration" where
  "parseDuration duration = snd (parseDuration_console duration)"

section \<open>Feedback ingestion: updatePools\<close>

text \<open>
  The \<open>Headers\<close> of a response: the value under a (lower-case) name, if the name is
  there. \<open>headers.get(name) || d\<close> is \<open>d\<close> for an absent name and for an empty value.
\<close>

type_synonym headers = "string \<rightharpoonup> string"

definition has :: "headers \<Rightarrow> string \<Rightarrow> bool" where
  "has h name = (h name \<noteq> None)"

definition get_or :: "headers \<Rightarrow> string \<Rightarrow> string \<Rightarrow> string" where
  "get_or h name d = (case h name of None \<Rightarrow> d | Some v \<Rightarrow> if v = [] then d else v)"

text \<open>
  Modelled from the spec: the state of the admission controller, two pools with a number
  remaining, a maximum and a pending reset timer each. The fields are declared in the base
  class, which is not among the sources; the names are those that \<open>updatePools\<close> uses,
  with the two further fields that it reads, \<open>debug\<close> and the id of the model. The four
  pool fields hold what \<open>parseInt\<close> returns; the type of numbers is left open. A timer
  field is \<open>None\<close> when no reset of the pool is pending and \<open>Some d\<close> when one is,
  \<open>d\<close> being the delay with which the runtime schedules it (\<open>setTimeout_delay\<close>
  below); \<open>clearTimeout\<close> followed by \<open>setTimeout\<close> replaces it. \<open>console\<close> is what \<open>console.log\<close> has
  received, oldest first; the line of a reset warning carries the duration whose
  \<open>asSeconds()\<close> the source prints, and the id of the model.
\<close>

record 'n client =
  requestPoolMax :: 'n
  requestPool :: 'n
  tokenPoolMax :: 'n
  tokenPool :: 'n
  requestTimer :: "jsnumber option"
  tokenTimer :: "jsnumber option"
  debug :: bool
  model_id :: string
  console :: "log_msg list"

datatype js_error = Error string | TypeError string

definition greater :: "jsnumber \<Rightarrow> int \<Rightarrow> bool" where
  \<comment> \<open>\<open>x > n\<close> of the source; false on NaN\<close>
  "greater x n = (case x of NaN \<Rightarrow> False | Num i \<Rightarrow> i > n)"

text \<open>
  \<open>setTimeout\<close> is the runtime's (Node.js), not the repository's. The delay with which
  it schedules the callback is its argument when that lies between 1 and 2147483647
  milliseconds, and 1 millisecond otherwise (below 1, above 2147483647, NaN).
\<close>

definition setTimeout_delay :: "jsnumber \<Rightarrow> jsnumber" where
  "setTimeout_delay after =
     (case after of
        NaN \<Rightarrow> Num 1
      | Num i \<Rightarrow> if 1 \<le> i \<and> i \<le> 2147483647 then Num i else Num 1)"

text \<open>The block of \<open>updatePools\<close> under \<open>headers.has("x-ratelimit-reset-requests")\<close>.\<close>

definition reset_requests :: "headers \<Rightarrow> 'n client \<Rightarrow> js_error + 'n client" where
  "reset_requests headers c =
     (if has headers ''x-ratelimit-reset-requests'' then
        (case parseDuration_console (get_or headers ''x-ratelimit-reset-requests'' ''0s'') of
           (lg, timeToReset) \<Rightarrow>
             (let c1 = c\<lparr>requestTimer := None, console := console c @ lg\<rparr>
              in if \<not> isValid timeToReset
                 then Inl (Error ''Time to reset requests does not have a valid format'')
                 else
                   (let c2 = c1\<lparr>requestTimer :=
                               Some (setTimeout_delay (asMilliseconds timeToReset))\<rparr>
                    in if greater (asMilliseconds timeToReset) 10000 \<and> debug c2
                       then Inr (c2\<lparr>console := console c2 @
                                   [RequestResetWarning timeToReset (model_id c2)]\<rparr>)
                       else Inr c2)))
      else Inr c)"

text \<open>The block under \<open>headers.has("x-ratelimit-reset-tokens")\<close>.\<close>

definition reset_tokens :: "headers \<Rightarrow> 'n client \<Rightarrow> js_error + 'n client" where
  "reset_tokens headers c =
     (if has headers ''x-ratelimit-reset-tokens'' then
        (case parseDuration_console (get_or headers ''x-ratelimit-reset-tokens'' ''0s'') of
           (lg, timeToReset) \<Rightarrow>
             (let c1 = c\<lparr>tokenTimer := None, console := console c @ lg\<rparr>
              in if \<not> isValid timeToReset
                 then Inl (Error ''Time to reset tokens does not have a valid format'')
                 else
                   (let c2 = c1\<lparr>tokenTimer :=
                               Some (setTimeout_delay (asMilliseconds timeToReset))\<rparr>
                    in if greater (asMilliseconds timeToReset) 10000 \<and> debug c2
                       then Inr (c2\<lparr>console := console c2 @
                                   [TokenResetWarning timeToReset (model_id c2)]\<rparr>)
                       else Inr c2)))
      else Inr c)"

text \<open>The four assignments of the pool fields, in the order of the source.\<close>

definition observe_pools :: "(string \<Rightarrow> 'n) \<Rightarrow> headers \<Rightarrow> 'n client \<Rightarrow> 'n client" where
  "observe_pools parseInt headers c =
     (let c1 = (if has headers ''x-ratelimit-limit-requests''
                then c\<lparr>requestPoolMax :=
                         parseInt (get_or headers ''x-ratelimit-limit-requests'' ''0'')\<rparr>
                else c);
          c2 = (if has headers ''x-ratelimit-remaining-requests''
                then c1\<lparr>requestPool :=
                          parseInt (get_or headers ''x-ratelimit-remaining-requests'' ''0'')\<rparr>
                else c1);
          c3 = (if has headers ''x-ratelimit-limit-tokens''
                then c2\<lparr>tokenPoolMax :=
                          parseInt (get_or headers ''x-ratelimit-limit-tokens'' ''0'')\<rparr>
                else c2);
          c4 = (if has headers ''x-ratelimit-remaining-tokens''
                then c3\<lparr>tokenPool :=
                          parseInt (get_or headers ''x-ratelimit-remaining-tokens'' ''0'')\<rparr>
                else c3)
      in c4)"

text \<open>
  \<open>updatePools\<close>: \<open>Inl\<close> is the exception thrown, \<open>Inr\<close> the client after a normal
  return. \<open>parseInt\<close> (called without a radix) is a parameter.
\<close>

definition updatePools :: "(string \<Rightarrow> 'n) \<Rightarrow> headers \<Rightarrow> 'n client \<Rightarrow> js_error + 'n client" where
  "updatePools parseInt headers c =
     (case reset_requests headers (observe_pools parseInt headers c) of
        Inl e \<Rightarrow> Inl e
      | Inr c5 \<Rightarrow> reset_tokens headers c5)"

section \<open>Classification of errors: parseError\<close>

text \<open>
  Modelled from the spec: the enumeration \<open>RejectionReason\<close>, declared in the base
  module, which is not among the sources; \<open>parseError\<close> names these five values.
\<close>

datatype RejectionReason =
  BAD_REQUEST | TOO_MANY_REQUESTS | INSUFFICIENT_QUOTA | SERVER_ERROR | UNKNOWN

text \<open>
  The parameter of \<open>parseError\<close> has type \<open>any\<close>: a JavaScript value. An object is
  the list of its own properties. Numbers are the integers and NaN; a number with a
  fraction, like every number that is not 400, 429 or 500, only reaches the default case.
\<close>

datatype jsval =
    JUndefined
  | JNull
  | JBoolean bool
  | JNumber jsnumber
  | JString string
  | JObject "(string \<times> jsval) list"

definition get_prop :: "jsval \<Rightarrow> string \<Rightarrow> js_error + jsval" where
  \<comment> \<open>\<open>v.name\<close> for the names \<open>status\<close>, \<open>error\<close> and \<open>code\<close>, which no
      primitive value has: a TypeError on \<open>undefined\<close> and \<open>null\<close>\<close>
  "get_prop v name =
     (case v of
        JUndefined \<Rightarrow> Inl (TypeError ''Cannot read properties of undefined'')
      | JNull \<Rightarrow> Inl (TypeError ''Cannot read properties of null'')
      | JObject ps \<Rightarrow> Inr (case map_of ps name of None \<Rightarrow> JUndefined | Some x \<Rightarrow> x)
      | _ \<Rightarrow> Inr JUndefined)"

definition truthy :: "jsval \<Rightarrow> bool" where
  "truthy v =
     (case v of
        JUndefined \<Rightarrow> False
      | JNull \<Rightarrow> False
      | JBoolean b \<Rightarrow> b
      | JNumber n \<Rightarrow> n \<noteq> NaN \<and> n \<noteq> Num 0
      | JString s \<Rightarrow> s \<noteq> []
      | JObject _ \<Rightarrow> True)"

definition parseError :: "jsval \<Rightarrow> js_error + RejectionReason" where
  "parseError error =
     (case get_prop error ''status'' of
        Inl e \<Rightarrow> Inl e
      | Inr status \<Rightarrow>
          if status = JNumber (Num 400) then Inr BAD_REQUEST
          else if status = JNumber (Num 429) then
            (case get_prop error ''error'' of
               Inl e \<Rightarrow> Inl e
             | Inr inner \<Rightarrow>
                 if truthy inner then
                   (case get_prop inner ''code'' of
                      Inl e \<Rightarrow> Inl e
                    | Inr code \<Rightarrow>
                        if code = JString ''insufficient_quota''
                        then Inr INSUFFICIENT_QUOTA
                        else Inr TOO_MANY_REQUESTS)
                 else Inr TOO_MANY_REQUESTS)
          else if status = JNumber (Num 500) then Inr SERVER_ERROR
          else Inr UNKNOWN)"

text \<open>
  The words of the specification, to compare \<open>parseError\<close> with: the status of an
  error, its nested \<open>error.code\<close> field, and the reason that the specification gives.
\<close>

definition status_of :: "jsval \<Rightarrow> jsval" where
  "status_of error =
     (case error of
        JObject ps \<Rightarrow> (case map_of ps ''status'' of None \<Rightarrow> JUndefined | Some x \<Rightarrow> x)
      | _ \<Rightarrow> JUndefined)"

definition nested_code :: "jsval \<Rightarrow> jsval option" where
  "nested_code error =
     (case error of
        JObject ps \<Rightarrow>
          (case map_of ps ''error'' of
             Some (JObject qs) \<Rightarrow> map_of qs ''code''
           | _ \<Rightarrow> None)
      | _ \<Rightarrow> None)"

definition classify_spec :: "jsval \<Rightarrow> RejectionReason" where
  "classify_spec error =
     (if status_of error = JNumber (Num 400) then BAD_REQUEST
      else if status_of error = JNumber (Num 429) then
        (if nested_code error = Some (JString ''insufficient_quota'')
         then INSUFFICIENT_QUOTA else TOO_MANY_REQUESTS)
      else if status_of error = JNumber (Num 500) then SERVER_ERROR
      else UNKNOWN)"

section \<open>The estimated cost of a chat completion\<close>

text \<open>
  The request of the caller, the request sent on, and the card of the model. \<open>'a\<close> is
  the type of the fields typed \<open>any\<close>, \<open>'x\<close> of the numbers, \<open>'m\<close> of a message.
\<close>

record ('a, 'x) ModelInvocationOptions =
  tools :: "'a option"
  response_format :: "'a option"
  temperature :: 'x
  max_tokens :: "'x option"

record ('a, 'x, 'm) ChatCompletionRequest =
  options :: "('a, 'x) ModelInvocationOptions option"
  model :: string
  messages :: "'m list"

record ('a, 'x, 'm) ChatCompletionCreateParams =
  p_model :: string
  p_temperature :: "'x option"
  p_max_tokens :: "'x option"
  p_tools :: "'a option"
  p_response_format :: "'a option"
  p_messages :: "'m list"

record model_card =
  checkpoint :: string
  supportsImages :: "bool option"

text \<open>
  \<open>countTokens\<close> (the tokenizer's count) and \<open>JSON.stringify\<close> are parameters.
\<close>

definition estimateTokens ::
  "(string \<Rightarrow> nat) \<Rightarrow> ('m list \<Rightarrow> string) \<Rightarrow> ('a, 'x, 'm) ChatCompletionCreateParams \<Rightarrow> nat" where
  "estimateTokens countTokens stringify request = countTokens (stringify (p_messages request))"

text \<open>
  \<open>createChatCompletion\<close> up to its call of \<open>enqueue\<close>: the two arguments of the call.
  \<open>request.options?.f\<close> is \<open>undefined\<close> without options.
\<close>

definition createChatCompletion ::
  "(string \<Rightarrow> nat) \<Rightarrow> ('m list \<Rightarrow> string) \<Rightarrow> model_card \<Rightarrow> ('a, 'x, 'm) ChatCompletionRequest
     \<Rightarrow> nat \<times> ('a, 'x, 'm) ChatCompletionCreateParams" where
  "createChatCompletion countTokens stringify crd request =
     (let openaiRequest =
            \<lparr> p_model = checkpoint crd,
              p_temperature = map_option temperature (options request),
              p_max_tokens = Option.bind (options request) max_tokens,
              p_tools = Option.bind (options request) tools,
              p_response_format = Option.bind (options request) response_format,
              p_messages = messages request \<rparr>
      in if supportsImages crd = Some True then (1000, openaiRequest)
         else (estimateTokens countTokens stringify openaiRequest, openaiRequest))"

section \<open>The words of the claims\<close>

text \<open>
  The matched tokens of an input: each matched part split into its integer and its unit,
  in the order of the matches. \<open>parseDuration\<close> matches nothing in an input of more than
  64 characters.
\<close>

definition token_of :: "string \<Rightarrow> nat \<times> string" where
  "token_of p = (digitsValue (takeWhile isDigit p), dropWhile isDigit p)"

definition tokens :: "string \<Rightarrow> (nat \<times> string) list" where
  "tokens s = map token_of (match_all (toLowerCase s))"

definition matched_tokens :: "string \<Rightarrow> (nat \<times> string) list" where
  "matched_tokens s = (if 64 < length s then [] else tokens s)"

text \<open>The integer of the last token with unit \<open>u\<close>; 0 when there is none.\<close>

definition last_value :: "string \<Rightarrow> (nat \<times> string) list \<Rightarrow> int" where
  "last_value u ts = (case find (\<lambda>t. snd t = u) (rev ts) of None \<Rightarrow> 0 | Some t \<Rightarrow> int (fst t))"

text \<open>The milliseconds in one unit.\<close>

definition unit_ms :: "string \<Rightarrow> int" where
  "unit_ms u = (if u = ''h'' then 1000 * 60 * 60 else if u = ''m'' then 60000
                else if u = ''s'' then 1000 else if u = ''ms'' then 1 else 0)"

text \<open>The decimal digits of a natural number, as \<open>String(n)\<close> writes them.\<close>

fun decimal :: "nat \<Rightarrow> string" where
  "decimal n = (if n < 10 then [char_of (48 + n)]
                else decimal (n div 10) @ [char_of (48 + n mod 10)])"

text \<open>
  A string has a token exactly when some digit in it is immediately followed by one of
  the letters h, m, s (lemma \<open>no_parts_iff\<close> below).
\<close>

fun digit_then_unit :: "string \<Rightarrow> bool" where
  "digit_then_unit (a # b # r) =
     ((isDigit a \<and> (b = CHR ''h'' \<or> b = CHR ''m'' \<or> b = CHR ''s'')) \<or> digit_then_unit (b # r))"
| "digit_then_unit _ = False"

text \<open>Auxiliary notions of the proofs.\<close>

definition good_part :: "string \<Rightarrow> bool" where
  "good_part p = (\<exists>d u. p = d @ u \<and> d \<noteq> [] \<and> length d \<le> 5 \<and> list_all isDigit d \<and>
                        u \<in> {''h'', ''ms'', ''m'', ''s''})"

definition store :: "units \<Rightarrow> nat \<times> string \<Rightarrow> units" where
  "store acc t = AList.update (the (map_of unit_table (snd t))) (Num (int (fst t))) acc"

definition digit_boundary :: "string \<Rightarrow> string \<Rightarrow> bool" where
  "digit_boundary pre rest = ((pre = [] \<or> \<not> isDigit (last pre)) \<and> (rest = [] \<or> isDigit (hd rest)))"

text \<open>A client at rest, for the examples.\<close>

definition example_client :: "jsnumber client" where
  "example_client =
     \<lparr> requestPoolMax = Num 100, requestPool = Num 40,
       tokenPoolMax = Num 10000, tokenPool = Num 2500,
       requestTimer = None, tokenTimer = None,
       debug = False, model_id = ''gpt-4'', console = [] \<rparr>"

section \<open>Lemmas on the matcher\<close>

lemma isDigit_not_unit:
  "isDigit c \<Longrightarrow> c \<noteq> CHR ''h'' \<and> c \<noteq> CHR ''m'' \<and> c \<noteq> CHR ''s''"
  by (auto simp: isDigit_def)

lemma match_unit_digit: "isDigit c \<Longrightarrow> match_unit (c # r) = None"
  using isDigit_not_unit [of c] by simp

lemma match_unit_sound:
  assumes "match_unit s = Some (u, r)"
  shows "s = u @ r \<and> u \<in> {''h'', ''ms'', ''m'', ''s''}"
  using assms by (cases s) (auto split: if_splits list.splits)

lemma match_unit_head:
  assumes "match_unit s = Some (u, r)"
  shows "\<exists>c t. s = c # t \<and> \<not> isDigit c"
  using assms by (cases s) (auto split: if_splits simp: isDigit_def)

lemma match_unit_alone:
  assumes "match_unit (u @ r) = Some (u, r)"
  shows "match_unit u = Some (u, [])"
proof -
  from match_unit_sound [OF assms] have "u \<in> {''h'', ''ms'', ''m'', ''s''}" by simp
  then show ?thesis by auto
qed

lemma match_digits_sound:
  "match_digits k s = Some (d, u, r) \<Longrightarrow>
     s = d @ u @ r \<and> d \<noteq> [] \<and> length d \<le> k \<and> list_all isDigit d \<and>
     match_unit (u @ r) = Some (u, r)"
proof (induction k)
  case 0
  then show ?case by simp
next
  case (Suc k)
  show ?case
  proof (cases "Suc k \<le> length s \<and> list_all isDigit (take (Suc k) s)")
    case False
    with Suc show ?thesis by auto
  next
    case True
    show ?thesis
    proof (cases "match_unit (drop (Suc k) s)")
      case None
      with True Suc show ?thesis by auto
    next
      case (Some a)
      obtain u' r' where a: "a = (u', r')" by (cases a)
      from Suc.prems True Some a have eq: "d = take (Suc k) s" "u = u'" "r = r'" by auto
      from match_unit_sound [OF Some [unfolded a]] have dr: "drop (Suc k) s = u' @ r'" by simp
      have "s = take (Suc k) s @ drop (Suc k) s" by simp
      with dr eq have s: "s = d @ u @ r" by metis
      from True eq have "d \<noteq> []" "length d \<le> Suc k" "list_all isDigit d" by auto
      moreover from Some a dr eq have "match_unit (u @ r) = Some (u, r)" by simp
      ultimately show ?thesis using s by simp
    qed
  qed
qed

text \<open>More digits than the string starts with: no match with that many.\<close>

lemma match_digits_run:
  assumes "list_all isDigit ds" "ds \<noteq> []" "length ds \<le> k" "match_unit rest = Some (u, r)"
  shows "match_digits k (ds @ rest) = Some (ds, u, r)"
  using assms(3)
proof (induction k)
  case 0
  with assms(2) show ?case by simp
next
  case (Suc k)
  from match_unit_head [OF assms(4)] obtain c t where rest: "rest = c # t" "\<not> isDigit c" by blast
  show ?case
  proof (cases "length ds = Suc k")
    case True
    with assms show ?thesis by simp
  next
    case False
    with Suc.prems have le: "length ds \<le> k" by simp
    then have "take (Suc k) (ds @ rest) = ds @ take (Suc k - length ds) rest" by simp
    moreover from le have "take (Suc k - length ds) rest = c # take (k - length ds) t"
      using rest by (simp add: Suc_diff_le)
    ultimately have "\<not> list_all isDigit (take (Suc k) (ds @ rest))"
      using rest by simp
    then have "match_digits (Suc k) (ds @ rest) = match_digits k (ds @ rest)"
      by (simp only: match_digits.simps) simp
    with Suc.IH [OF le] show ?thesis by simp
  qed
qed

text \<open>A run of more than \<open>k\<close> digits: no match at its start.\<close>

lemma match_digits_long:
  assumes "j < length s" "list_all isDigit (take (Suc j) s)"
  shows "match_digits j s = None"
  using assms
proof (induction j)
  case 0
  then show ?case by simp
next
  case (Suc j)
  from Suc.prems have d: "isDigit (s ! Suc j)"
    by (simp add: list_all_length)
  from Suc.prems have "drop (Suc j) s = s ! Suc j # drop (Suc (Suc j)) s"
    by (simp add: Cons_nth_drop_Suc)
  with d have mu: "match_unit (drop (Suc j) s) = None"
    by (simp only: match_unit_digit)
  from Suc.prems have "list_all isDigit (take (Suc j) s)"
    by (simp add: list_all_length)
  with Suc.IH Suc.prems have "match_digits j s = None" by simp
  with mu show ?case by (simp only: match_digits.simps) simp
qed

section \<open>Which inputs have a match\<close>

lemma match_unit_Some:
  assumes "b = CHR ''h'' \<or> b = CHR ''m'' \<or> b = CHR ''s''"
  shows "\<exists>u r'. match_unit (b # r) = Some (u, r')"
  using assms by auto

lemma match_at_digit_unit:
  assumes "isDigit a" "b = CHR ''h'' \<or> b = CHR ''m'' \<or> b = CHR ''s''"
  shows "match_at (a # b # r) \<noteq> None"
proof -
  from match_unit_Some [OF assms(2)] obtain u r' where "match_unit (b # r) = Some (u, r')"
    by blast
  from match_digits_run [of "[a]" 5, OF _ _ _ this] assms(1)
  show ?thesis by (simp add: match_at_def)
qed

lemma match_all_Cons_None: "match_at (c # cs) = None \<Longrightarrow> match_all (c # cs) = match_all cs"
  by simp

lemma match_all_Cons_Some:
  "match_at (c # cs) = Some (d, u, r) \<Longrightarrow> match_all (c # cs) = (d @ u) # match_all r"
  by simp

lemma digit_then_unit_match: "digit_then_unit s \<Longrightarrow> match_all s \<noteq> []"
proof (induction s rule: digit_then_unit.induct)
  case (1 a b r)
  show ?case
  proof (cases "match_at (a # b # r)")
    case (Some x)
    then show ?thesis by (cases x) (simp add: match_all_Cons_Some)
  next
    case None
    with match_at_digit_unit [of a b r]
    have "\<not> (isDigit a \<and> (b = CHR ''h'' \<or> b = CHR ''m'' \<or> b = CHR ''s''))" by blast
    with 1 have "match_all (b # r) \<noteq> []" by simp
    moreover from None have "match_all (a # b # r) = match_all (b # r)"
      by (rule match_all_Cons_None)
    ultimately show ?thesis by metis
  qed
qed simp_all

lemma digit_then_unit_Cons: "digit_then_unit cs \<Longrightarrow> digit_then_unit (c # cs)"
  by (cases cs) auto

lemma digit_then_unit_append:
  assumes "isDigit a" "b = CHR ''h'' \<or> b = CHR ''m'' \<or> b = CHR ''s''"
  shows "digit_then_unit (pre @ a # b # post)"
proof (induction pre)
  case Nil
  from assms show ?case by simp
next
  case (Cons x pre)
  from digit_then_unit_Cons [OF Cons.IH] show ?case by simp
qed

lemma match_at_digit_then_unit:
  assumes "match_at s = Some (d, u, r)"
  shows "digit_then_unit s"
proof -
  from match_digits_sound [OF assms [unfolded match_at_def]]
  have s: "s = d @ u @ r" and d: "d \<noteq> []" "list_all isDigit d"
    and u: "match_unit (u @ r) = Some (u, r)" by simp_all
  from match_unit_sound [OF u] have "u \<in> {''h'', ''ms'', ''m'', ''s''}" by simp
  then obtain b t where ub: "u = b # t" "b = CHR ''h'' \<or> b = CHR ''m'' \<or> b = CHR ''s''"
    by auto
  from d obtain pre a where da: "d = pre @ [a]" "isDigit a"
    by (cases d rule: rev_cases) auto
  from s ub da have "s = pre @ a # b # (t @ r)" by simp
  with digit_then_unit_append [OF da(2) ub(2)] show ?thesis by simp
qed

lemma match_digit_then_unit: "match_all s \<noteq> [] \<Longrightarrow> digit_then_unit s"
proof (induction s)
  case Nil
  then show ?case by simp
next
  case (Cons c cs)
  show ?case
  proof (cases "match_at (c # cs)")
    case None
    with Cons show ?thesis by (simp add: digit_then_unit_Cons)
  next
    case (Some x)
    obtain d u r where "x = (d, u, r)" by (cases x)
    with Some match_at_digit_then_unit show ?thesis by blast
  qed
qed

lemma no_parts_iff: "match_all s = [] \<longleftrightarrow> \<not> digit_then_unit s"
  using digit_then_unit_match match_digit_then_unit by blast

lemma match_at_good:
  assumes "match_at s = Some (d, u, r)"
  shows "good_part (d @ u)"
proof -
  from match_digits_sound [OF assms [unfolded match_at_def]]
  have d: "d \<noteq> []" "length d \<le> 5" "list_all isDigit d"
    and u: "match_unit (u @ r) = Some (u, r)" by simp_all
  from match_unit_sound [OF u] d show ?thesis
    unfolding good_part_def by blast
qed

lemma match_all_good: "p \<in> set (match_all s) \<Longrightarrow> good_part p"
proof (induction s rule: match_all.induct)
  case 1
  then show ?case by simp
next
  case (2 c cs)
  show ?case
  proof (cases "match_at (c # cs)")
    case None
    with 2 show ?thesis by simp
  next
    case (Some x)
    obtain d u r where x: "x = (d, u, r)" by (cases x)
    from "2.prems" Some x have "p = d @ u \<or> p \<in> set (match_all r)" by simp
    then show ?thesis
    proof
      assume "p = d @ u"
      with match_at_good Some x show ?thesis by blast
    next
      assume "p \<in> set (match_all r)"
      from "2.IH"(2) [OF Some _ _ this, of d "(u, r)" u] x show ?thesis by simp
    qed
  qed
qed

section \<open>The reducer on the matched parts\<close>

lemma isDigit_plain:
  "isDigit c \<Longrightarrow> \<not> isWhiteSpace c \<and> c \<noteq> CHR ''-'' \<and> c \<noteq> CHR ''+''"
  by (auto simp: isDigit_def isWhiteSpace_def)

lemma parseInt10_digits:
  assumes "d \<noteq> []" "list_all isDigit d"
  shows "parseInt10 d = Num (int (digitsValue d))"
proof -
  from assms obtain c cs where d: "d = c # cs" and c: "isDigit c" by (cases d) auto
  from assms(2) have tw: "takeWhile isDigit d = d"
    by (simp add: takeWhile_eq_all_conv list_all_iff)
  from isDigit_plain [OF c] d have "dropWhile isWhiteSpace d = d" by simp
  with isDigit_plain [OF c] d tw show ?thesis
    by (simp add: parseInt10_def)
qed

lemma unit_no_digit:
  assumes "u \<in> {''h'', ''ms'', ''m'', ''s''}"
  shows "takeWhile isDigit u = [] \<and> dropWhile isDigit u = u \<and> match_unit u = Some (u, [])"
  using assms by (auto simp: isDigit_def)

lemma unit_name:
  assumes "u \<in> {''h'', ''ms'', ''m'', ''s''}"
  shows "\<exists>n. map_of unit_table u = Some n \<and> n \<noteq> []"
  using assms by (auto simp: unit_table_def)

lemma match_first_good:
  assumes "d \<noteq> []" "length d \<le> 5" "list_all isDigit d" "u \<in> {''h'', ''ms'', ''m'', ''s''}"
  shows "match_first (d @ u) = Some (d, u)"
proof -
  from unit_no_digit [OF assms(4)] have "match_unit u = Some (u, [])" by simp
  from match_digits_run [OF assms(3) assms(1) assms(2) this]
  have m: "match_at (d @ u) = Some (d, u, [])" by (simp add: match_at_def)
  from assms(1) obtain c cs where "d @ u = c # cs" by (cases d) auto
  with m show ?thesis by simp
qed

lemma token_of_good:
  assumes "list_all isDigit d" "u \<in> {''h'', ''ms'', ''m'', ''s''}"
  shows "token_of (d @ u) = (digitsValue d, u)"
proof -
  from assms(1) have "\<And>x. x \<in> set d \<Longrightarrow> isDigit x" by (simp add: list_all_iff)
  then have "takeWhile isDigit (d @ u) = d @ takeWhile isDigit u"
    and "dropWhile isDigit (d @ u) = dropWhile isDigit u"
    by (simp_all add: takeWhile_append2 dropWhile_append2)
  with unit_no_digit [OF assms(2)] show ?thesis by (simp add: token_of_def)
qed

lemma reducer_good:
  assumes "good_part p"
  shows "reducer (lg, acc) p = (lg, store acc (token_of p))"
proof -
  from assms obtain d u where p: "p = d @ u" and d: "d \<noteq> []" "length d \<le> 5" "list_all isDigit d"
    and u: "u \<in> {''h'', ''ms'', ''m'', ''s''}"
    unfolding good_part_def by blast
  from unit_name [OF u] obtain n where n: "map_of unit_table u = Some n" "n \<noteq> []" by blast
  from match_first_good [OF d u] parseInt10_digits [OF d(1) d(3)] n token_of_good [OF d(3) u] p
  show ?thesis by (simp add: reducer_def isNaN_def store_def)
qed

lemma foldl_reducer_good:
  "\<forall>p \<in> set ps. good_part p \<Longrightarrow>
     foldl reducer (lg, acc) ps = (lg, foldl store acc (map token_of ps))"
  by (induction ps arbitrary: acc) (simp_all add: reducer_good)

lemma token_of_unit:
  assumes "good_part p"
  shows "snd (token_of p) \<in> {''h'', ''ms'', ''m'', ''s''}"
proof -
  from assms obtain d u where "p = d @ u" "list_all isDigit d" "u \<in> {''h'', ''ms'', ''m'', ''s''}"
    unfolding good_part_def by blast
  with token_of_good show ?thesis by simp
qed

lemma store_no_NaN:
  "\<forall>k. map_of acc k \<noteq> Some NaN \<Longrightarrow> \<forall>k. map_of (foldl store acc ts) k \<noteq> Some NaN"
  by (induction ts arbitrary: acc) (simp_all add: store_def update_conv')

lemma store_lookup:
  assumes "\<forall>t \<in> set ts. snd t \<in> {''h'', ''ms'', ''m'', ''s''}"
    and "u \<in> {''h'', ''ms'', ''m'', ''s''}"
  shows "map_of (foldl store acc ts) (the (map_of unit_table u)) =
           (case find (\<lambda>t. snd t = u) (rev ts) of
              None \<Rightarrow> map_of acc (the (map_of unit_table u))
            | Some t \<Rightarrow> Some (Num (int (fst t))))"
  using assms(1)
proof (induction ts rule: rev_induct)
  case Nil
  then show ?case by simp
next
  case (snoc t ts)
  then have "snd t \<in> {''h'', ''ms'', ''m'', ''s''}" by simp
  with assms(2) have "(the (map_of unit_table u) = the (map_of unit_table (snd t))) = (snd t = u)"
    by (auto simp: unit_table_def)
  with snoc show ?case by (auto simp: store_def update_conv')
qed

lemma unit_or_zero_last:
  assumes "\<forall>t \<in> set ts. snd t \<in> {''h'', ''ms'', ''m'', ''s''}"
    and "u \<in> {''h'', ''ms'', ''m'', ''s''}"
  shows "unit_or_zero (foldl store [] ts) (the (map_of unit_table u)) = last_value u ts"
  using store_lookup [OF assms, of "[]"]
  by (simp add: unit_or_zero_def last_value_def split: option.splits)

section \<open>The duration of the tokens\<close>

lemma toLowerChar_digit: "isDigit c \<Longrightarrow> toLowerChar c = c"
  by (simp add: isDigit_def toLowerChar_def)

lemma toLowerCase_digits: "list_all isDigit ds \<Longrightarrow> toLowerCase ds = ds"
  by (induction ds) (simp_all add: toLowerCase_def toLowerChar_digit)

lemma toLowerCase_unit:
  "u \<in> {''h'', ''ms'', ''m'', ''s''} \<Longrightarrow> toLowerCase u = u"
  by (auto simp: toLowerCase_def toLowerChar_def)

lemma toLowerCase_append: "toLowerCase (a @ b) = toLowerCase a @ toLowerCase b"
  by (simp add: toLowerCase_def)

lemma moment_zero: "moment_duration_ms 0 = \<lparr>isValid = True, milliseconds = 0\<rparr>"
  by (simp add: moment_duration_ms_def moment_duration_def moment_keys_def unit_or_zero_def)

lemma parseDuration_too_long:
  "64 < length s \<Longrightarrow> parseDuration s = \<lparr>isValid = True, milliseconds = 0\<rparr>"
  by (simp add: parseDuration_def parseDuration_console_def moment_zero)

lemma parseDuration_no_parts:
  "match_all (toLowerCase s) = [] \<Longrightarrow> parseDuration s = \<lparr>isValid = True, milliseconds = 0\<rparr>"
  by (simp add: parseDuration_def parseDuration_console_def moment_zero Let_def)

lemma tokens_units: "\<forall>t \<in> set (map token_of (match_all s)). snd t \<in> {''h'', ''ms'', ''m'', ''s''}"
  using match_all_good token_of_unit by auto

lemma unit_names:
  "the (map_of unit_table ''h'') = ''hours''"
  "the (map_of unit_table ''m'') = ''minutes''"
  "the (map_of unit_table ''s'') = ''seconds''"
  "the (map_of unit_table ''ms'') = ''milliseconds''"
  by (simp_all add: unit_table_def)

lemma moment_duration_store:
  assumes "\<forall>t \<in> set ts. snd t \<in> {''h'', ''ms'', ''m'', ''s''}"
  shows "moment_duration (foldl store [] ts) =
           \<lparr> isValid = True,
             milliseconds = last_value ''ms'' ts + last_value ''s'' ts * 1000
                          + last_value ''m'' ts * 60000 + last_value ''h'' ts * 1000 * 60 * 60 \<rparr>"
proof -
  have "\<forall>k. map_of (foldl store [] ts) k \<noteq> Some NaN"
    by (rule store_no_NaN) simp
  then have v: "list_all (\<lambda>k. map_of (foldl store [] ts) k \<noteq> Some NaN) moment_keys"
    by (simp add: list_all_iff)
  have "unit_or_zero (foldl store [] ts) ''hours'' = last_value ''h'' ts"
    "unit_or_zero (foldl store [] ts) ''minutes'' = last_value ''m'' ts"
    "unit_or_zero (foldl store [] ts) ''seconds'' = last_value ''s'' ts"
    "unit_or_zero (foldl store [] ts) ''milliseconds'' = last_value ''ms'' ts"
    using unit_or_zero_last [OF assms, of "''h''"] unit_or_zero_last [OF assms, of "''m''"]
      unit_or_zero_last [OF assms, of "''s''"] unit_or_zero_last [OF assms, of "''ms''"]
    by (simp_all add: unit_names)
  with v show ?thesis by (simp add: moment_duration_def)
qed

lemma parseDuration_tokens:
  assumes "length s \<le> 64"
  shows "parseDuration s =
           \<lparr> isValid = True,
             milliseconds = last_value ''ms'' (tokens s) + last_value ''s'' (tokens s) * 1000
                          + last_value ''m'' (tokens s) * 60000
                          + last_value ''h'' (tokens s) * 1000 * 60 * 60 \<rparr>"
proof (cases "match_all (toLowerCase s) = []")
  case True
  then have "tokens s = []" by (simp add: tokens_def)
  with parseDuration_no_parts [OF True] show ?thesis by (simp add: last_value_def)
next
  case False
  have "\<forall>p \<in> set (match_all (toLowerCase s)). good_part p"
    using match_all_good by blast
  from foldl_reducer_good [OF this, of "[]" "[]"] False assms
  have "parseDuration s = moment_duration (foldl store [] (tokens s))"
    by (simp add: parseDuration_def parseDuration_console_def Let_def tokens_def)
  with moment_duration_store [OF tokens_units, of "toLowerCase s"] show ?thesis
    by (simp add: tokens_def)
qed

lemma parseDuration_valid: "isValid (parseDuration s)"
proof (cases "length s \<le> 64")
  case True
  from parseDuration_tokens [OF True] show ?thesis by simp
next
  case False
  then have "64 < length s" by simp
  from parseDuration_too_long [OF this] show ?thesis by simp
qed

lemma match_all_run:
  assumes "u \<in> {''h'', ''ms'', ''m'', ''s''}"
  shows "list_all isDigit ds \<Longrightarrow> ds \<noteq> [] \<Longrightarrow>
           match_all (ds @ u) = [drop (length ds - 5) ds @ u]"
proof (induction ds)
  case Nil
  then show ?case by simp
next
  case (Cons c cs)
  from unit_no_digit [OF assms] have mu: "match_unit u = Some (u, [])" by simp
  show ?case
  proof (cases "length (c # cs) \<le> 5")
    case True
    from match_digits_run [OF Cons.prems(1) Cons.prems(2) True mu]
    have "match_at (c # cs @ u) = Some (c # cs, u, [])" by (simp add: match_at_def)
    from match_all_Cons_Some [OF this] True show ?thesis by simp
  next
    case False
    then have len: "5 \<le> length cs" by simp
    then have cs: "cs \<noteq> []" by auto
    from Cons.prems(1) have "list_all isDigit (take 6 (c # cs @ u))"
      using len by (simp add: list_all_iff) (metis in_set_takeD)
    moreover have "5 < length (c # cs @ u)" using len by simp
    ultimately have "match_at (c # cs @ u) = None"
      unfolding match_at_def using match_digits_long [of 5 "c # cs @ u"] by simp
    from match_all_Cons_None [OF this] Cons.IH cs Cons.prems(1)
    have "match_all (c # cs @ u) = [drop (length cs - 5) cs @ u]" by simp
    moreover from len have "length (c # cs) - 5 = Suc (length cs - 5)" by simp
    then have "drop (length (c # cs) - 5) (c # cs) = drop (length cs - 5) cs"
      by (simp only: drop_Suc_Cons)
    ultimately show ?thesis by simp
  qed
qed

lemma tokens_run:
  assumes "u \<in> {''h'', ''ms'', ''m'', ''s''}" "list_all isDigit ds" "ds \<noteq> []"
  shows "tokens (ds @ u) = [(digitsValue (drop (length ds - 5) ds), u)]"
proof -
  have "toLowerCase (ds @ u) = ds @ u"
    using toLowerCase_digits [OF assms(2)] toLowerCase_unit [OF assms(1)]
    by (simp add: toLowerCase_append)
  moreover from assms(2) have "list_all isDigit (drop (length ds - 5) ds)"
    by (simp add: list_all_iff) (metis in_set_dropD)
  ultimately show ?thesis
    using match_all_run [OF assms] token_of_good [OF _ assms(1)]
    by (simp add: tokens_def)
qed

lemma last_value_single:
  "last_value u [(n, u')] = (if u' = u then int n else 0)"
  by (simp add: last_value_def)

lemma parseDuration_run:
  assumes "u \<in> {''h'', ''ms'', ''m'', ''s''}" "list_all isDigit ds" "ds \<noteq> []"
    and "length (ds @ u) \<le> 64"
  shows "parseDuration (ds @ u) =
           \<lparr> isValid = True,
             milliseconds = int (digitsValue (drop (length ds - 5) ds)) * unit_ms u \<rparr>"
  using parseDuration_tokens [OF assms(4)] tokens_run [OF assms(1-3)] assms(1)
  by (auto simp: last_value_single unit_ms_def)

lemma digitsValue_snoc: "digitsValue (ds @ [c]) = 10 * digitsValue ds + digitValue c"
  by (simp add: digitsValue_def)

lemma digit_char:
  "k < 10 \<Longrightarrow> isDigit (char_of (48 + k)) \<and> digitValue (char_of (48 + k)) = k"
  by (simp add: isDigit_def digitValue_def)

lemma decimal_digits: "list_all isDigit (decimal n) \<and> decimal n \<noteq> []"
proof (induction n rule: decimal.induct)
  case (1 n)
  show ?case
  proof (cases "n < 10")
    case True
    with digit_char [of n] show ?thesis by simp
  next
    case False
    with "1.IH" digit_char [of "n mod 10"] show ?thesis by simp
  qed
qed

lemma decimal_value: "digitsValue (decimal n) = n"
proof (induction n rule: decimal.induct)
  case (1 n)
  show ?case
  proof (cases "n < 10")
    case True
    with digit_char [of n] show ?thesis by (simp add: digitsValue_def)
  next
    case False
    then have "decimal n = decimal (n div 10) @ [char_of (48 + n mod 10)]" by simp
    with "1.IH" False digit_char [of "n mod 10"] show ?thesis
      by (simp only: digitsValue_snoc) simp
  qed
qed

lemma decimal_length: "n < 10 ^ k \<Longrightarrow> 0 < k \<Longrightarrow> length (decimal n) \<le> k"
proof (induction k arbitrary: n)
  case 0
  then show ?case by simp
next
  case (Suc k)
  show ?case
  proof (cases "n < 10")
    case True
    then show ?thesis by simp
  next
    case False
    with Suc.prems have k: "0 < k" by (cases k) auto
    from Suc.prems have "n div 10 < 10 ^ k" by (simp add: less_mult_imp_div_less mult.commute)
    from Suc.IH [OF this k] False show ?thesis by simp
  qed
qed

section \<open>Matches across a boundary\<close>

lemma match_unit_extend:
  assumes "match_unit (u @ r) = Some (u, r)" "rest = [] \<or> isDigit (hd rest)"
  shows "match_unit (u @ r @ rest) = Some (u, r @ rest)"
proof -
  from match_unit_sound [OF assms(1)] have u: "u \<in> {''h'', ''ms'', ''m'', ''s''}" by simp
  have ns: "rest \<noteq> [] \<Longrightarrow> hd rest \<noteq> CHR ''s''"
    using assms(2) isDigit_not_unit [of "hd rest"] by auto
  show ?thesis
  proof (cases "u = ''m''")
    case False
    with u show ?thesis by auto
  next
    case True
    show ?thesis
    proof (cases r)
      case Nil
      with True ns show ?thesis by (cases rest) auto
    next
      case (Cons a r')
      with True assms(1) show ?thesis by (auto split: if_splits)
    qed
  qed
qed

lemma match_digits_some:
  assumes "0 < j" "j \<le> k" "j \<le> length s" "list_all isDigit (take j s)"
    and "match_unit (drop j s) \<noteq> None"
  shows "match_digits k s \<noteq> None"
  using assms(2)
proof (induction k)
  case 0
  with assms(1) show ?case by simp
next
  case (Suc k)
  show ?case
  proof (cases "j = Suc k")
    case True
    with assms show ?thesis by (auto split: option.splits)
  next
    case False
    with Suc have "match_digits k s \<noteq> None" by simp
    then show ?thesis by (auto split: option.splits)
  qed
qed

lemma match_unit_prefix:
  assumes "match_unit (s @ rest) \<noteq> None" "s \<noteq> []"
  shows "match_unit s \<noteq> None"
  using assms by (cases s) (auto split: if_splits)

lemma digits_before_boundary:
  assumes "list_all isDigit d" "pre @ rest = d @ t" "pre \<noteq> []" "\<not> isDigit (last pre)"
  shows "length d < length pre"
proof (rule ccontr)
  assume "\<not> length d < length pre"
  then have le: "length pre \<le> length d" by simp
  from assms(2) have "take (length pre) (pre @ rest) = take (length pre) (d @ t)" by simp
  with le have "pre = take (length pre) d" by simp
  then have "set pre \<subseteq> set d" by (metis set_take_subset)
  with assms(1) have "list_all isDigit pre" by (auto simp: list_all_iff)
  with assms(3) have "isDigit (last pre)" by (simp add: list_all_iff)
  with assms(4) show False by simp
qed

lemma match_at_none_extend:
  assumes "match_at pre = None" "pre \<noteq> []" "\<not> isDigit (last pre)"
  shows "match_at (pre @ rest) = None"
proof (rule ccontr)
  assume "match_at (pre @ rest) \<noteq> None"
  then obtain d u r where m: "match_digits 5 (pre @ rest) = Some (d, u, r)"
    by (auto simp: match_at_def)
  from match_digits_sound [OF m]
  have eq: "pre @ rest = d @ u @ r" and d: "d \<noteq> []" "length d \<le> 5" "list_all isDigit d"
    and mu: "match_unit (u @ r) = Some (u, r)" by simp_all
  from digits_before_boundary [OF d(3) eq assms(2,3)] have lt: "length d < length pre" .
  from eq have "take (length d) (pre @ rest) = d" by simp
  with lt have td: "take (length d) pre = d" by simp
  from eq have "drop (length d) (pre @ rest) = u @ r" by simp
  with lt have "drop (length d) pre @ rest = u @ r" by simp
  with mu have "match_unit (drop (length d) pre @ rest) \<noteq> None" by simp
  moreover from lt have "drop (length d) pre \<noteq> []" by simp
  ultimately have "match_unit (drop (length d) pre) \<noteq> None" by (rule match_unit_prefix)
  from match_digits_some [OF _ d(2) _ _ this] d td lt
  have "match_digits 5 pre \<noteq> None" by simp
  with assms(1) show False by (simp add: match_at_def)
qed

lemma match_all_append:
  "digit_boundary pre rest \<Longrightarrow> match_all (pre @ rest) = match_all pre @ match_all rest"
proof (induction pre rule: match_all.induct)
  case 1
  then show ?case by simp
next
  case (2 c cs)
  from "2.prems" have nd: "\<not> isDigit (last (c # cs))" and rest: "rest = [] \<or> isDigit (hd rest)"
    by (simp_all add: digit_boundary_def)
  show ?case
  proof (cases "match_at (c # cs)")
    case None
    from match_at_none_extend [OF None _ nd] have "match_at (c # (cs @ rest)) = None" by simp
    then have e: "match_all ((c # cs) @ rest) = match_all (cs @ rest)"
      by (simp only: append_Cons match_all_Cons_None)
    have "digit_boundary cs rest"
      using nd rest by (cases cs) (simp_all add: digit_boundary_def)
    from "2.IH"(1) [OF None this] e None show ?thesis by simp
  next
    case (Some x)
    obtain d u r where x: "x = (d, u, r)" by (cases x)
    from match_digits_sound [OF Some [unfolded match_at_def x]]
    have eq: "c # cs = d @ u @ r" and d: "d \<noteq> []" "length d \<le> 5" "list_all isDigit d"
      and mu: "match_unit (u @ r) = Some (u, r)" by simp_all
    from match_digits_run [OF d(3) d(1) d(2) match_unit_extend [OF mu rest]] eq
    have "match_at (c # (cs @ rest)) = Some (d, u, r @ rest)"
      by (simp add: match_at_def) (metis append_Cons append_assoc)
    then have e: "match_all ((c # cs) @ rest) = (d @ u) # match_all (r @ rest)"
      by (simp only: append_Cons match_all_Cons_Some)
    have "digit_boundary r rest"
    proof (cases r)
      case Nil
      with rest show ?thesis by (simp add: digit_boundary_def)
    next
      case (Cons a r')
      have "last (c # cs) = last (d @ u @ r)" by (rule arg_cong [OF eq])
      also from Cons have "\<dots> = last r" by simp
      finally have l: "last (c # cs) = last r" .
      from nd have "\<not> isDigit (last r)" unfolding l .
      with rest show ?thesis by (simp add: digit_boundary_def)
    qed
    from "2.IH"(2) [OF Some _ _ this, of d "(u, r)" u] x e Some show ?thesis by simp
  qed
qed

lemma match_all_run_post:
  assumes "match_unit (u @ post) = Some (u, post)"
  shows "list_all isDigit ds \<Longrightarrow> ds \<noteq> [] \<Longrightarrow>
           match_all (ds @ u @ post) = (drop (length ds - 5) ds @ u) # match_all post"
proof (induction ds)
  case Nil
  then show ?case by simp
next
  case (Cons c cs)
  show ?case
  proof (cases "length (c # cs) \<le> 5")
    case True
    from match_digits_run [OF Cons.prems(1) Cons.prems(2) True assms]
    have "match_at (c # cs @ u @ post) = Some (c # cs, u, post)" by (simp add: match_at_def)
    from match_all_Cons_Some [OF this] True show ?thesis by simp
  next
    case False
    then have len: "5 \<le> length cs" by simp
    then have cs: "cs \<noteq> []" by auto
    from Cons.prems(1) have "list_all isDigit (take 6 (c # cs @ u @ post))"
      using len by (simp add: list_all_iff) (metis in_set_takeD)
    moreover have "5 < length (c # cs @ u @ post)" using len by simp
    ultimately have "match_at (c # cs @ u @ post) = None"
      unfolding match_at_def using match_digits_long [of 5 "c # cs @ u @ post"] by simp
    from match_all_Cons_None [OF this] Cons.IH cs Cons.prems(1)
    have "match_all (c # cs @ u @ post) = (drop (length cs - 5) cs @ u) # match_all post" by simp
    moreover from len have "length (c # cs) - 5 = Suc (length cs - 5)" by simp
    then have "drop (length (c # cs) - 5) (c # cs) = drop (length cs - 5) cs"
      by (simp only: drop_Suc_Cons)
    ultimately show ?thesis by simp
  qed
qed

section \<open>updatePools as a function of the headers\<close>

lemma parseDuration_console_pair:
  "parseDuration_console s = (fst (parseDuration_console s), parseDuration s)"
  by (simp add: parseDuration_def)

lemma parseDuration_console_log:
  "fst (parseDuration_console s) =
     (if 64 < length s then [DurationTooLong s]
      else if match_all (toLowerCase s) = [] then [NoParts (toLowerCase s)]
      else [])"
proof -
  have "\<forall>p \<in> set (match_all (toLowerCase s)). good_part p"
    using match_all_good by blast
  from foldl_reducer_good [OF this, of "[]" "[]"] show ?thesis
    by (simp add: parseDuration_console_def Let_def)
qed

lemma asMilliseconds_parseDuration:
  "asMilliseconds (parseDuration s) = Num (milliseconds (parseDuration s))"
  by (simp add: asMilliseconds_def parseDuration_valid)

lemma reset_requests_eq:
  "reset_requests headers c =
     Inr (if has headers ''x-ratelimit-reset-requests''
          then c\<lparr> requestTimer :=
                    Some (setTimeout_delay (Num (milliseconds (parseDuration
                      (get_or headers ''x-ratelimit-reset-requests'' ''0s''))))),
                  console := console c
                    @ fst (parseDuration_console
                        (get_or headers ''x-ratelimit-reset-requests'' ''0s''))
                    @ (if 10000 < milliseconds (parseDuration
                             (get_or headers ''x-ratelimit-reset-requests'' ''0s'')) \<and> debug c
                       then [RequestResetWarning
                               (parseDuration (get_or headers ''x-ratelimit-reset-requests'' ''0s''))
                               (model_id c)]
                       else []) \<rparr>
          else c)"
proof (cases "has headers ''x-ratelimit-reset-requests''")
  case False
  then show ?thesis by (simp add: reset_requests_def)
next
  case True
  obtain lg where p: "parseDuration_console (get_or headers ''x-ratelimit-reset-requests'' ''0s'')
      = (lg, parseDuration (get_or headers ''x-ratelimit-reset-requests'' ''0s''))"
    using parseDuration_console_pair by blast
  from True p show ?thesis
    by (simp add: reset_requests_def Let_def parseDuration_valid asMilliseconds_parseDuration
        greater_def)
qed

lemma reset_tokens_eq:
  "reset_tokens headers c =
     Inr (if has headers ''x-ratelimit-reset-tokens''
          then c\<lparr> tokenTimer :=
                    Some (setTimeout_delay (Num (milliseconds (parseDuration
                      (get_or headers ''x-ratelimit-reset-tokens'' ''0s''))))),
                  console := console c
                    @ fst (parseDuration_console
                        (get_or headers ''x-ratelimit-reset-tokens'' ''0s''))
                    @ (if 10000 < milliseconds (parseDuration
                             (get_or headers ''x-ratelimit-reset-tokens'' ''0s'')) \<and> debug c
                       then [TokenResetWarning
                               (parseDuration (get_or headers ''x-ratelimit-reset-tokens'' ''0s''))
                               (model_id c)]
                       else []) \<rparr>
          else c)"
proof (cases "has headers ''x-ratelimit-reset-tokens''")
  case False
  then show ?thesis by (simp add: reset_tokens_def)
next
  case True
  obtain lg where p: "parseDuration_console (get_or headers ''x-ratelimit-reset-tokens'' ''0s'')
      = (lg, parseDuration (get_or headers ''x-ratelimit-reset-tokens'' ''0s''))"
    using parseDuration_console_pair by blast
  from True p show ?thesis
    by (simp add: reset_tokens_def Let_def parseDuration_valid asMilliseconds_parseDuration
        greater_def)
qed

lemma updatePools_eq:
  "updatePools parseInt headers c =
     reset_tokens headers (projr (reset_requests headers (observe_pools parseInt headers c)))"
  by (simp add: updatePools_def reset_requests_eq)

lemma observe_pools_frame:
  "requestTimer (observe_pools parseInt headers c) = requestTimer c"
  "tokenTimer (observe_pools parseInt headers c) = tokenTimer c"
  "console (observe_pools parseInt headers c) = console c"
  "debug (observe_pools parseInt headers c) = debug c"
  "model_id (observe_pools parseInt headers c) = model_id c"
  by (simp_all add: observe_pools_def Let_def)

lemma observe_pools_absent:
  "\<not> has headers ''x-ratelimit-limit-requests'' \<Longrightarrow>
     requestPoolMax (observe_pools parseInt headers c) = requestPoolMax c"
  "\<not> has headers ''x-ratelimit-remaining-requests'' \<Longrightarrow>
     requestPool (observe_pools parseInt headers c) = requestPool c"
  "\<not> has headers ''x-ratelimit-limit-tokens'' \<Longrightarrow>
     tokenPoolMax (observe_pools parseInt headers c) = tokenPoolMax c"
  "\<not> has headers ''x-ratelimit-remaining-tokens'' \<Longrightarrow>
     tokenPool (observe_pools parseInt headers c) = tokenPool c"
  by (simp_all add: observe_pools_def Let_def)

lemma reset_requests_fields:
  "requestPoolMax (projr (reset_requests headers c)) = requestPoolMax c"
  "requestPool (projr (reset_requests headers c)) = requestPool c"
  "tokenPoolMax (projr (reset_requests headers c)) = tokenPoolMax c"
  "tokenPool (projr (reset_requests headers c)) = tokenPool c"
  "tokenTimer (projr (reset_requests headers c)) = tokenTimer c"
  "debug (projr (reset_requests headers c)) = debug c"
  "model_id (projr (reset_requests headers c)) = model_id c"
  by (simp_all add: reset_requests_eq)

lemma reset_tokens_fields:
  "requestPoolMax (projr (reset_tokens headers c)) = requestPoolMax c"
  "requestPool (projr (reset_tokens headers c)) = requestPool c"
  "tokenPoolMax (projr (reset_tokens headers c)) = tokenPoolMax c"
  "tokenPool (projr (reset_tokens headers c)) = tokenPool c"
  "requestTimer (projr (reset_tokens headers c)) = requestTimer c"
  "debug (projr (reset_tokens headers c)) = debug c"
  "model_id (projr (reset_tokens headers c)) = model_id c"
  by (simp_all add: reset_tokens_eq)

lemma updatePools_Inr:
  "updatePools parseInt headers c = Inr (projr (updatePools parseInt headers c))"
  by (simp add: updatePools_eq reset_tokens_eq)

section \<open>Further facts\<close>

lemma isDigit_toLowerChar: "isDigit (toLowerChar c) = isDigit c"
  by (auto simp: isDigit_def toLowerChar_def Let_def)

lemma tokens_nil_iff: "tokens s = [] \<longleftrightarrow> match_all (toLowerCase s) = []"
  by (simp add: tokens_def)

lemma matched_tokens_short: "length s \<le> 64 \<Longrightarrow> matched_tokens s = tokens s"
  by (simp add: matched_tokens_def)

lemma parse_log_no_warning:
  "RequestResetWarning d m \<notin> set (fst (parseDuration_console s))"
  "TokenResetWarning d m \<notin> set (fst (parseDuration_console s))"
  by (simp_all add: parseDuration_console_log)

section \<open>The claims\<close>

text \<open>
  Claim C1, amended: \<open>updatePools\<close> returns normally for every set of headers: neither
  of the two branches that throw "does not have a valid format" is reached, because
  \<open>parseDuration\<close> gives a valid duration, with a number of milliseconds, for every
  string; the duration is zero for a string of more than 64 characters and for a string
  without a token.
\<close>

theorem updatePools_never_throws:
  "(\<exists>c'. updatePools parseInt headers c = Inr c')
   \<and> (\<forall>e. reset_requests headers c \<noteq> Inl e) \<and> (\<forall>e. reset_tokens headers c \<noteq> Inl e)
   \<and> isValid (parseDuration s) \<and> asMilliseconds (parseDuration s) \<noteq> NaN
   \<and> (64 < length s \<or> tokens s = [] \<longrightarrow> asMilliseconds (parseDuration s) = Num 0)"
proof -
  have a: "\<exists>c'. updatePools parseInt headers c = Inr c'"
    using updatePools_Inr [of parseInt headers c] by blast
  have b: "\<forall>e. reset_requests headers c \<noteq> Inl e"
    by (simp only: reset_requests_eq) simp
  have b': "\<forall>e. reset_tokens headers c \<noteq> Inl e"
    by (simp only: reset_tokens_eq) simp
  have d: "isValid (parseDuration s)" by (rule parseDuration_valid)
  have e: "asMilliseconds (parseDuration s) \<noteq> NaN"
    by (simp add: asMilliseconds_parseDuration)
  have f: "64 < length s \<or> tokens s = [] \<longrightarrow> asMilliseconds (parseDuration s) = Num 0"
    using parseDuration_too_long [of s] parseDuration_no_parts [of s]
    by (auto simp: asMilliseconds_def tokens_nil_iff)
  from a b b' d e f show ?thesis by (simp only: simp_thms)
qed

text \<open>
  A reset header that is no duration: the zero duration is handed to \<open>setTimeout\<close>,
  which schedules the reset with delay 1.
\<close>

theorem updatePools_never_throws_witness:
  "tokens ''soon'' = [] \<and> asMilliseconds (parseDuration ''soon'') = Num 0
   \<and> updatePools js_parseInt [''x-ratelimit-reset-requests'' \<mapsto> ''soon''] example_client
       = Inr (example_client\<lparr>requestTimer := Some (Num 1), console := [NoParts ''soon'']\<rparr>)"
proof -
  have t: "tokens ''soon'' = []" by code_simp
  have u: "updatePools js_parseInt [''x-ratelimit-reset-requests'' \<mapsto> ''soon''] example_client
       = Inr (example_client\<lparr>requestTimer := Some (Num 1), console := [NoParts ''soon'']\<rparr>)"
    by code_simp
  from updatePools_never_throws [of js_parseInt "[''x-ratelimit-reset-requests'' \<mapsto> ''soon'']"
      example_client "''soon''"] t u
  show ?thesis by simp
qed

text \<open>
  Claim C1 as stated fails on the malformed string \<open>1.5s\<close>: the duration is not zero
  but that of the token \<open>5s\<close>, 5000 milliseconds, and nothing is logged.
\<close>

theorem malformed_duration_not_zero:
  "parseDuration ''1.5s'' = \<lparr>isValid = True, milliseconds = 5000\<rparr>
   \<and> parseDuration_console ''1.5s'' = ([], \<lparr>isValid = True, milliseconds = 5000\<rparr>)
   \<and> updatePools js_parseInt [''x-ratelimit-reset-requests'' \<mapsto> ''1.5s''] example_client
       = Inr (example_client\<lparr>requestTimer := Some (Num 5000)\<rparr>)"
proof -
  have a: "parseDuration ''1.5s'' = \<lparr>isValid = True, milliseconds = 5000\<rparr>" by code_simp
  have b: "parseDuration_console ''1.5s'' = ([], \<lparr>isValid = True, milliseconds = 5000\<rparr>)"
    by code_simp
  have c: "updatePools js_parseInt [''x-ratelimit-reset-requests'' \<mapsto> ''1.5s''] example_client
       = Inr (example_client\<lparr>requestTimer := Some (Num 5000)\<rparr>)" by code_simp
  from a b c show ?thesis by (simp only: simp_thms)
qed

text \<open>
  Claim C2, amended: for every error value other than \<open>null\<close> and \<open>undefined\<close>,
  \<open>parseError\<close> returns one of the five reasons: \<open>BAD_REQUEST\<close> for status 400;
  for status 429, \<open>INSUFFICIENT_QUOTA\<close> if and only if the nested \<open>error.code\<close> is
  \<open>"insufficient_quota"\<close>, and \<open>TOO_MANY_REQUESTS\<close> otherwise; \<open>SERVER_ERROR\<close>
  for status 500; \<open>UNKNOWN\<close> for every other status.
\<close>

theorem parseError_classification:
  assumes "error \<noteq> JUndefined" and "error \<noteq> JNull"
  shows "parseError error = Inr (classify_spec error)"
proof (cases error)
  case JUndefined
  with assms show ?thesis by simp
next
  case JNull
  with assms show ?thesis by simp
next
  case (JBoolean b)
  then show ?thesis
    by (simp add: parseError_def get_prop_def classify_spec_def status_of_def)
next
  case (JNumber n)
  then show ?thesis
    by (simp add: parseError_def get_prop_def classify_spec_def status_of_def)
next
  case (JString s)
  then show ?thesis
    by (simp add: parseError_def get_prop_def classify_spec_def status_of_def)
next
  case (JObject ps)
  show ?thesis
  proof (cases "map_of ps ''error''")
    case None
    with JObject show ?thesis
      by (simp add: parseError_def get_prop_def classify_spec_def status_of_def nested_code_def
          truthy_def)
  next
    case (Some inner)
    with JObject show ?thesis
      by (cases inner)
        (simp_all add: parseError_def get_prop_def classify_spec_def status_of_def nested_code_def
          truthy_def split: option.splits)
  qed
qed

text \<open>One error for each reason, and two without a numeric status.\<close>

theorem parseError_classification_witness:
  "parseError (JObject [(''status'', JNumber (Num 429)),
                        (''error'', JObject [(''code'', JString ''insufficient_quota'')])])
     = Inr INSUFFICIENT_QUOTA
   \<and> parseError (JObject [(''status'', JNumber (Num 429))]) = Inr TOO_MANY_REQUESTS
   \<and> parseError (JObject [(''status'', JNumber (Num 400))]) = Inr BAD_REQUEST
   \<and> parseError (JObject [(''status'', JNumber (Num 500))]) = Inr SERVER_ERROR
   \<and> parseError (JObject [(''status'', JString ''400'')]) = Inr UNKNOWN
   \<and> parseError (JString ''timeout'') = Inr UNKNOWN"
  using
    parseError_classification [of "JObject [(''status'', JNumber (Num 429)),
                        (''error'', JObject [(''code'', JString ''insufficient_quota'')])]"]
    parseError_classification [of "JObject [(''status'', JNumber (Num 429))]"]
    parseError_classification [of "JObject [(''status'', JNumber (Num 400))]"]
    parseError_classification [of "JObject [(''status'', JNumber (Num 500))]"]
    parseError_classification [of "JObject [(''status'', JString ''400'')]"]
    parseError_classification [of "JString ''timeout''"]
  by (simp add: classify_spec_def status_of_def nested_code_def)

text \<open>
  Claim C2 as stated fails on \<open>null\<close>: reading \<open>error.status\<close> throws a TypeError,
  and no reason is returned.
\<close>

theorem parseError_null_throws:
  "parseError JNull = Inl (TypeError ''Cannot read properties of null'')"
  by (simp add: parseError_def get_prop_def)

text \<open>
  Claim C3. \<open>parseDuration("6h10m0s0ms")\<close> is a valid duration of 22200000 milliseconds,
  which is 6 hours and 10 minutes; \<open>parseDuration("20s200ms")\<close> is one of 20200
  milliseconds; the empty string, and every input in which no token matches, gives a valid
  duration of zero milliseconds. The model of \<open>parseDuration\<close> has no branch that throws:
  the source has none.
\<close>

theorem parseDuration_examples:
  "parseDuration ''6h10m0s0ms'' = \<lparr>isValid = True, milliseconds = 22200000\<rparr>
   \<and> (22200000 :: int) = 6 * unit_ms ''h'' + 10 * unit_ms ''m''
   \<and> parseDuration ''20s200ms'' = \<lparr>isValid = True, milliseconds = 20200\<rparr>
   \<and> parseDuration [] = \<lparr>isValid = True, milliseconds = 0\<rparr>
   \<and> (tokens s = [] \<longrightarrow> parseDuration s = \<lparr>isValid = True, milliseconds = 0\<rparr>)"
proof -
  have a: "parseDuration ''6h10m0s0ms'' = \<lparr>isValid = True, milliseconds = 22200000\<rparr>"
    by code_simp
  have b: "(22200000 :: int) = 6 * unit_ms ''h'' + 10 * unit_ms ''m''"
    by (simp add: unit_ms_def)
  have c: "parseDuration ''20s200ms'' = \<lparr>isValid = True, milliseconds = 20200\<rparr>"
    by code_simp
  have d: "parseDuration [] = \<lparr>isValid = True, milliseconds = 0\<rparr>"
    by (rule parseDuration_no_parts) (simp add: toLowerCase_def)
  have e: "tokens s = [] \<longrightarrow> parseDuration s = \<lparr>isValid = True, milliseconds = 0\<rparr>"
    by (simp add: tokens_nil_iff parseDuration_no_parts)
  from a b c d e show ?thesis by (simp only: simp_thms)
qed

text \<open>An input without a token.\<close>

theorem parseDuration_examples_witness:
  "tokens ''in a while'' = [] \<and>
   parseDuration ''in a while'' = \<lparr>isValid = True, milliseconds = 0\<rparr>"
proof -
  have h: "tokens ''in a while'' = []" by code_simp
  with parseDuration_examples [of "''in a while''"] show ?thesis by simp
qed

text \<open>
  Claim C4. Every input of more than 64 characters, and every input in which no token
  matches (no digit immediately followed by h, m or s, in either case of the letter),
  gives a valid duration of zero milliseconds; so does every input of 65 characters.
\<close>

theorem parseDuration_fail_soft:
  "(64 < length s \<or> tokens s = [] \<longrightarrow>
      parseDuration s = \<lparr>isValid = True, milliseconds = 0\<rparr>
      \<and> asMilliseconds (parseDuration s) = Num 0)
   \<and> (tokens s = [] \<longleftrightarrow> \<not> digit_then_unit (toLowerCase s))
   \<and> (length s = 65 \<longrightarrow> parseDuration s = \<lparr>isValid = True, milliseconds = 0\<rparr>)"
proof -
  have a: "64 < length s \<or> tokens s = [] \<longrightarrow>
      parseDuration s = \<lparr>isValid = True, milliseconds = 0\<rparr>
      \<and> asMilliseconds (parseDuration s) = Num 0"
    using parseDuration_too_long [of s] parseDuration_no_parts [of s]
    by (auto simp: asMilliseconds_def tokens_nil_iff)
  have b: "tokens s = [] \<longleftrightarrow> \<not> digit_then_unit (toLowerCase s)"
    by (simp add: tokens_nil_iff no_parts_iff)
  have c: "length s = 65 \<longrightarrow> parseDuration s = \<lparr>isValid = True, milliseconds = 0\<rparr>"
    using parseDuration_too_long [of s] by simp
  from a b c show ?thesis by (simp only: simp_thms)
qed

text \<open>
  An input of 65 characters that would hold the token \<open>11111s\<close>, and a short input
  without a token: its digit is followed by a space.
\<close>

theorem parseDuration_fail_soft_witness:
  "length (replicate 64 (CHR ''1'') @ ''s'') = 65
   \<and> parseDuration (replicate 64 (CHR ''1'') @ ''s'') = \<lparr>isValid = True, milliseconds = 0\<rparr>
   \<and> \<not> digit_then_unit (toLowerCase ''10 minutes'')
   \<and> parseDuration ''10 minutes'' = \<lparr>isValid = True, milliseconds = 0\<rparr>"
proof -
  have l: "length (replicate 64 (CHR ''1'') @ ''s'') = 65" by simp
  with parseDuration_fail_soft [of "replicate 64 (CHR ''1'') @ ''s''"]
  have a: "parseDuration (replicate 64 (CHR ''1'') @ ''s'') = \<lparr>isValid = True, milliseconds = 0\<rparr>"
    by blast
  have n: "\<not> digit_then_unit (toLowerCase ''10 minutes'')" by code_simp
  with parseDuration_fail_soft [of "''10 minutes''"]
  have b: "parseDuration ''10 minutes'' = \<lparr>isValid = True, milliseconds = 0\<rparr>" by blast
  from l a n b show ?thesis by (simp only: simp_thms)
qed

text \<open>
  Claim C5. For every integer \<open>n\<close> of one to five digits, the string of \<open>n\<close> followed
  by \<open>ms\<close> parses to exactly \<open>n\<close> milliseconds: the only token matched is \<open>n\<close> with
  the unit \<open>ms\<close>, not \<open>n\<close> minutes and a dangling \<open>s\<close>.
\<close>

theorem ms_suffix_is_milliseconds:
  assumes "n < 100000"
  shows "parseDuration (decimal n @ ''ms'') = \<lparr>isValid = True, milliseconds = int n\<rparr>
         \<and> matched_tokens (decimal n @ ''ms'') = [(n, ''ms'')]
         \<and> 1 \<le> length (decimal n) \<and> length (decimal n) \<le> 5"
proof -
  from assms have "n < 10 ^ 5" by simp
  from decimal_length [OF this] have len: "length (decimal n) \<le> 5" by simp
  then have l64: "length (decimal n @ ''ms'') \<le> 64" by simp
  have u: "''ms'' \<in> {''h'', ''ms'', ''m'', ''s''}" by simp
  from decimal_digits [of n] have dg: "list_all isDigit (decimal n)" "decimal n \<noteq> []" by simp_all
  from dg(2) have one: "1 \<le> length (decimal n)" by (cases "decimal n") simp_all
  from len have dr: "drop (length (decimal n) - 5) (decimal n) = decimal n" by simp
  from parseDuration_run [OF u dg l64] tokens_run [OF u dg] dr
  have "parseDuration (decimal n @ ''ms'') = \<lparr>isValid = True, milliseconds = int n\<rparr>
         \<and> matched_tokens (decimal n @ ''ms'') = [(n, ''ms'')]"
    by (simp add: decimal_value unit_ms_def matched_tokens_short [OF l64] del: decimal.simps)
  with one len show ?thesis by (simp only: simp_thms)
qed

text \<open>The instance \<open>250ms\<close>.\<close>

theorem ms_suffix_is_milliseconds_witness:
  "(250 :: nat) < 100000 \<and> decimal 250 = ''250''
   \<and> parseDuration ''250ms'' = \<lparr>isValid = True, milliseconds = 250\<rparr>
   \<and> matched_tokens ''250ms'' = [(250, ''ms'')]"
proof -
  have d: "decimal 250 = ''250''" by code_simp
  have "(250 :: nat) < 100000" by simp
  from ms_suffix_is_milliseconds [OF this] d show ?thesis by simp
qed

text \<open>
  Claim C6. When a unit occurs more than once among the matched tokens of the input, the
  last occurrence alone gives the contribution of that unit: the result is the sum, over
  the four units, of the integer of the last token with that unit. \<open>5s10s\<close> gives 10
  seconds.
\<close>

theorem duplicate_units_overwrite:
  "milliseconds (parseDuration s) =
       last_value ''ms'' (matched_tokens s) + last_value ''s'' (matched_tokens s) * 1000
     + last_value ''m'' (matched_tokens s) * 60000
     + last_value ''h'' (matched_tokens s) * 1000 * 60 * 60
   \<and> matched_tokens ''5s10s'' = [(5, ''s''), (10, ''s'')]
   \<and> parseDuration ''5s10s'' = \<lparr>isValid = True, milliseconds = 10000\<rparr>"
proof -
  have a: "milliseconds (parseDuration s) =
       last_value ''ms'' (matched_tokens s) + last_value ''s'' (matched_tokens s) * 1000
     + last_value ''m'' (matched_tokens s) * 60000
     + last_value ''h'' (matched_tokens s) * 1000 * 60 * 60"
  proof (cases "64 < length s")
    case True
    from parseDuration_too_long [OF True] True show ?thesis
      by (simp add: matched_tokens_def last_value_def)
  next
    case False
    then have le: "length s \<le> 64" by simp
    from parseDuration_tokens [OF le] show ?thesis
      by (simp add: matched_tokens_short [OF le])
  qed
  have b: "matched_tokens ''5s10s'' = [(5, ''s''), (10, ''s'')]" by code_simp
  have c: "parseDuration ''5s10s'' = \<lparr>isValid = True, milliseconds = 10000\<rparr>" by code_simp
  from a b c show ?thesis by (simp only: simp_thms)
qed

text \<open>An input with two tokens in seconds among others.\<close>

theorem duplicate_units_overwrite_witness:
  "matched_tokens ''1h5s9m10s'' = [(1, ''h''), (5, ''s''), (9, ''m''), (10, ''s'')]
   \<and> milliseconds (parseDuration ''1h5s9m10s'') = 10 * 1000 + 9 * 60000 + 1 * 1000 * 60 * 60"
proof -
  have t: "matched_tokens ''1h5s9m10s'' = [(1, ''h''), (5, ''s''), (9, ''m''), (10, ''s'')]"
    by code_simp
  from duplicate_units_overwrite [of "''1h5s9m10s''"] show ?thesis
    unfolding t by (simp add: last_value_def)
qed

text \<open>
  Claim C7. \<open>updatePools\<close> changes a tracked field only when its header is present:
  without the limit header the maximum of the pool is unchanged, without the remaining
  header the pool is unchanged, without the reset header the timer is untouched, for the
  request pool and for the token pool; with none of the six headers the client is
  unchanged.
\<close>

theorem updatePools_frame:
  assumes "updatePools parseInt headers c = Inr c'"
  shows "(\<not> has headers ''x-ratelimit-limit-requests'' \<longrightarrow> requestPoolMax c' = requestPoolMax c)
   \<and> (\<not> has headers ''x-ratelimit-remaining-requests'' \<longrightarrow> requestPool c' = requestPool c)
   \<and> (\<not> has headers ''x-ratelimit-reset-requests'' \<longrightarrow> requestTimer c' = requestTimer c)
   \<and> (\<not> has headers ''x-ratelimit-limit-tokens'' \<longrightarrow> tokenPoolMax c' = tokenPoolMax c)
   \<and> (\<not> has headers ''x-ratelimit-remaining-tokens'' \<longrightarrow> tokenPool c' = tokenPool c)
   \<and> (\<not> has headers ''x-ratelimit-reset-tokens'' \<longrightarrow> tokenTimer c' = tokenTimer c)
   \<and> (\<not> has headers ''x-ratelimit-limit-requests''
        \<and> \<not> has headers ''x-ratelimit-remaining-requests''
        \<and> \<not> has headers ''x-ratelimit-reset-requests''
        \<and> \<not> has headers ''x-ratelimit-limit-tokens''
        \<and> \<not> has headers ''x-ratelimit-remaining-tokens''
        \<and> \<not> has headers ''x-ratelimit-reset-tokens'' \<longrightarrow> c' = c)"
proof -
  let ?o = "observe_pools parseInt headers c"
  let ?r = "projr (reset_requests headers ?o)"
  from assms have c': "c' = projr (reset_tokens headers ?r)"
    by (simp add: updatePools_eq)
  have a1: "\<not> has headers ''x-ratelimit-limit-requests'' \<longrightarrow> requestPoolMax c' = requestPoolMax c"
    unfolding c' by (simp add: reset_tokens_fields reset_requests_fields observe_pools_absent)
  have a2: "\<not> has headers ''x-ratelimit-remaining-requests'' \<longrightarrow> requestPool c' = requestPool c"
    unfolding c' by (simp add: reset_tokens_fields reset_requests_fields observe_pools_absent)
  have a3: "\<not> has headers ''x-ratelimit-reset-requests'' \<longrightarrow> requestTimer c' = requestTimer c"
    unfolding c' by (simp add: reset_tokens_fields reset_requests_eq observe_pools_frame)
  have a4: "\<not> has headers ''x-ratelimit-limit-tokens'' \<longrightarrow> tokenPoolMax c' = tokenPoolMax c"
    unfolding c' by (simp add: reset_tokens_fields reset_requests_fields observe_pools_absent)
  have a5: "\<not> has headers ''x-ratelimit-remaining-tokens'' \<longrightarrow> tokenPool c' = tokenPool c"
    unfolding c' by (simp add: reset_tokens_fields reset_requests_fields observe_pools_absent)
  have a6: "\<not> has headers ''x-ratelimit-reset-tokens'' \<longrightarrow> tokenTimer c' = tokenTimer c"
    unfolding c' by (simp add: reset_tokens_eq reset_requests_fields observe_pools_frame)
  have a7: "\<not> has headers ''x-ratelimit-limit-requests''
        \<and> \<not> has headers ''x-ratelimit-remaining-requests''
        \<and> \<not> has headers ''x-ratelimit-reset-requests''
        \<and> \<not> has headers ''x-ratelimit-limit-tokens''
        \<and> \<not> has headers ''x-ratelimit-remaining-tokens''
        \<and> \<not> has headers ''x-ratelimit-reset-tokens'' \<longrightarrow> c' = c"
    unfolding c' by (simp add: reset_tokens_eq reset_requests_eq observe_pools_def)
  from a1 a2 a3 a4 a5 a6 a7 show ?thesis by (simp only: simp_thms)
qed

text \<open>No headers at all, and headers of the token pool only.\<close>

theorem updatePools_frame_witness:
  "updatePools js_parseInt Map.empty example_client = Inr example_client
   \<and> updatePools js_parseInt
        [''x-ratelimit-remaining-tokens'' \<mapsto> ''7'', ''x-ratelimit-reset-tokens'' \<mapsto> ''1s'']
        example_client
       = Inr (example_client\<lparr>tokenPool := Num 7, tokenTimer := Some (Num 1000)\<rparr>)
   \<and> requestPoolMax (example_client\<lparr>tokenPool := Num 7, tokenTimer := Some (Num 1000)\<rparr>)
       = requestPoolMax example_client
   \<and> requestPool (example_client\<lparr>tokenPool := Num 7, tokenTimer := Some (Num 1000)\<rparr>)
       = requestPool example_client
   \<and> requestTimer (example_client\<lparr>tokenPool := Num 7, tokenTimer := Some (Num 1000)\<rparr>)
       = requestTimer example_client
   \<and> tokenPoolMax (example_client\<lparr>tokenPool := Num 7, tokenTimer := Some (Num 1000)\<rparr>)
       = tokenPoolMax example_client"
proof -
  have e: "\<exists>c'. updatePools js_parseInt Map.empty example_client = Inr c'"
    using updatePools_Inr by blast
  then obtain c' where c': "updatePools js_parseInt Map.empty example_client = Inr c'" ..
  from updatePools_frame [OF c'] have "c' = example_client" by (simp add: has_def)
  with c' have a: "updatePools js_parseInt Map.empty example_client = Inr example_client" by simp
  have u: "updatePools js_parseInt
        [''x-ratelimit-remaining-tokens'' \<mapsto> ''7'', ''x-ratelimit-reset-tokens'' \<mapsto> ''1s'']
        example_client
       = Inr (example_client\<lparr>tokenPool := Num 7, tokenTimer := Some (Num 1000)\<rparr>)"
    by code_simp
  from updatePools_frame [OF u] have
    "requestPoolMax (example_client\<lparr>tokenPool := Num 7, tokenTimer := Some (Num 1000)\<rparr>)
       = requestPoolMax example_client
   \<and> requestPool (example_client\<lparr>tokenPool := Num 7, tokenTimer := Some (Num 1000)\<rparr>)
       = requestPool example_client
   \<and> requestTimer (example_client\<lparr>tokenPool := Num 7, tokenTimer := Some (Num 1000)\<rparr>)
       = requestTimer example_client
   \<and> tokenPoolMax (example_client\<lparr>tokenPool := Num 7, tokenTimer := Some (Num 1000)\<rparr>)
       = tokenPoolMax example_client"
    by (simp add: has_def)
  with a u show ?thesis by (simp only: simp_thms)
qed

text \<open>
  Claim C8, amended: when a reset header is present and parses to a duration \<open>d\<close> of
  more than 10000 and at most 2147483647 milliseconds, the largest delay that
  \<open>setTimeout\<close> takes as it is, \<open>updatePools\<close> schedules the reset timer of that pool
  with delay exactly \<open>d\<close>, not clamped to the threshold; for every \<open>d\<close> of more than
  10000 milliseconds the warning is logged if and only if the \<open>debug\<close> flag of the
  client is set.
\<close>

theorem reset_delay_not_clamped:
  assumes "dr = parseDuration (get_or headers ''x-ratelimit-reset-requests'' ''0s'')"
    and "dt = parseDuration (get_or headers ''x-ratelimit-reset-tokens'' ''0s'')"
  shows "\<exists>c'. updatePools parseInt headers c = Inr c'
     \<and> (has headers ''x-ratelimit-reset-requests'' \<and> 10000 < milliseconds dr \<longrightarrow>
          requestTimer c' = Some (setTimeout_delay (asMilliseconds dr))
          \<and> asMilliseconds dr = Num (milliseconds dr)
          \<and> (milliseconds dr \<le> 2147483647 \<longrightarrow> requestTimer c' = Some (Num (milliseconds dr)))
          \<and> (RequestResetWarning dr (model_id c) \<in> set (drop (length (console c)) (console c')))
              = debug c)
     \<and> (has headers ''x-ratelimit-reset-tokens'' \<and> 10000 < milliseconds dt \<longrightarrow>
          tokenTimer c' = Some (setTimeout_delay (asMilliseconds dt))
          \<and> asMilliseconds dt = Num (milliseconds dt)
          \<and> (milliseconds dt \<le> 2147483647 \<longrightarrow> tokenTimer c' = Some (Num (milliseconds dt)))
          \<and> (TokenResetWarning dt (model_id c) \<in> set (drop (length (console c)) (console c')))
              = debug c)"
proof -
  let ?o = "observe_pools parseInt headers c"
  let ?r = "projr (reset_requests headers ?o)"
  let ?c' = "projr (reset_tokens headers ?r)"
  have u: "updatePools parseInt headers c = Inr ?c'"
    using updatePools_Inr [of parseInt headers c] by (simp add: updatePools_eq)
  have r: "has headers ''x-ratelimit-reset-requests'' \<and> 10000 < milliseconds dr \<longrightarrow>
          requestTimer ?c' = Some (setTimeout_delay (asMilliseconds dr))
          \<and> asMilliseconds dr = Num (milliseconds dr)
          \<and> (milliseconds dr \<le> 2147483647 \<longrightarrow> requestTimer ?c' = Some (Num (milliseconds dr)))
          \<and> (RequestResetWarning dr (model_id c) \<in> set (drop (length (console c)) (console ?c')))
              = debug c"
    unfolding assms
    by (simp add: reset_tokens_eq reset_requests_eq observe_pools_frame
        asMilliseconds_parseDuration parse_log_no_warning setTimeout_delay_def)
  have t: "has headers ''x-ratelimit-reset-tokens'' \<and> 10000 < milliseconds dt \<longrightarrow>
          tokenTimer ?c' = Some (setTimeout_delay (asMilliseconds dt))
          \<and> asMilliseconds dt = Num (milliseconds dt)
          \<and> (milliseconds dt \<le> 2147483647 \<longrightarrow> tokenTimer ?c' = Some (Num (milliseconds dt)))
          \<and> (TokenResetWarning dt (model_id c) \<in> set (drop (length (console c)) (console ?c')))
              = debug c"
    unfolding assms
    by (simp add: reset_tokens_eq reset_requests_eq observe_pools_frame
        asMilliseconds_parseDuration parse_log_no_warning setTimeout_delay_def)
  from u r t show ?thesis by blast
qed

text \<open>Both reset headers above the threshold, with \<open>debug\<close> set.\<close>

theorem reset_delay_not_clamped_witness:
  "parseDuration ''20s'' = \<lparr>isValid = True, milliseconds = 20000\<rparr>
   \<and> parseDuration ''6m0s'' = \<lparr>isValid = True, milliseconds = 360000\<rparr>
   \<and> (\<exists>c'. updatePools js_parseInt
               [''x-ratelimit-reset-requests'' \<mapsto> ''20s'',
                ''x-ratelimit-reset-tokens'' \<mapsto> ''6m0s'']
               (example_client\<lparr>debug := True\<rparr>) = Inr c'
            \<and> requestTimer c' = Some (Num 20000)
            \<and> tokenTimer c' = Some (Num 360000)
            \<and> RequestResetWarning \<lparr>isValid = True, milliseconds = 20000\<rparr> ''gpt-4''
                 \<in> set (console c')
            \<and> TokenResetWarning \<lparr>isValid = True, milliseconds = 360000\<rparr> ''gpt-4''
                 \<in> set (console c'))"
proof -
  let ?h = "[''x-ratelimit-reset-requests'' \<mapsto> ''20s'', ''x-ratelimit-reset-tokens'' \<mapsto> ''6m0s'']"
  let ?c = "example_client\<lparr>debug := True\<rparr>"
  have g: "get_or ?h ''x-ratelimit-reset-requests'' ''0s'' = ''20s''"
    "get_or ?h ''x-ratelimit-reset-tokens'' ''0s'' = ''6m0s''"
    "has ?h ''x-ratelimit-reset-requests''" "has ?h ''x-ratelimit-reset-tokens''"
    by (simp_all add: get_or_def has_def)
  have p: "parseDuration ''20s'' = \<lparr>isValid = True, milliseconds = 20000\<rparr>"
    "parseDuration ''6m0s'' = \<lparr>isValid = True, milliseconds = 360000\<rparr>"
    by code_simp+
  have e: "model_id ?c = ''gpt-4''" "debug ?c" "console ?c = []"
    by (simp_all add: example_client_def)
  from reset_delay_not_clamped [OF refl refl, where headers = ?h and parseInt = js_parseInt
      and c = ?c]
  have "\<exists>c'. updatePools js_parseInt ?h ?c = Inr c'
            \<and> requestTimer c' = Some (Num 20000)
            \<and> tokenTimer c' = Some (Num 360000)
            \<and> RequestResetWarning \<lparr>isValid = True, milliseconds = 20000\<rparr> ''gpt-4''
                 \<in> set (console c')
            \<and> TokenResetWarning \<lparr>isValid = True, milliseconds = 360000\<rparr> ''gpt-4''
                 \<in> set (console c')"
    by (simp add: g p e asMilliseconds_def setTimeout_delay_def) blast
  with p show ?thesis by (simp only: simp_thms)
qed

text \<open>
  Claim C8 as stated fails twice. On a client without \<open>debug\<close>, a reset of 20 seconds
  sets the timer and logs nothing. On a reset of 600 hours, 2160000000 milliseconds, the
  duration is handed to \<open>setTimeout\<close> unclamped, and the runtime schedules the reset
  with delay 1.
\<close>

theorem reset_warning_needs_debug:
  "\<not> debug example_client
   \<and> parseDuration ''20s'' = \<lparr>isValid = True, milliseconds = 20000\<rparr>
   \<and> updatePools js_parseInt [''x-ratelimit-reset-requests'' \<mapsto> ''20s''] example_client
       = Inr (example_client\<lparr>requestTimer := Some (Num 20000)\<rparr>)
   \<and> console (example_client\<lparr>requestTimer := Some (Num 20000)\<rparr>) = []
   \<and> parseDuration ''600h'' = \<lparr>isValid = True, milliseconds = 2160000000\<rparr>
   \<and> updatePools js_parseInt [''x-ratelimit-reset-requests'' \<mapsto> ''600h'']
        (example_client\<lparr>debug := True\<rparr>)
       = Inr (example_client
               \<lparr> requestTimer := Some (Num 1), debug := True,
                 console := [RequestResetWarning \<lparr>isValid = True, milliseconds = 2160000000\<rparr>
                               ''gpt-4''] \<rparr>)"
proof -
  have a: "\<not> debug example_client" by (simp add: example_client_def)
  have b: "parseDuration ''20s'' = \<lparr>isValid = True, milliseconds = 20000\<rparr>" by code_simp
  have c: "updatePools js_parseInt [''x-ratelimit-reset-requests'' \<mapsto> ''20s''] example_client
       = Inr (example_client\<lparr>requestTimer := Some (Num 20000)\<rparr>)" by code_simp
  have d: "console (example_client\<lparr>requestTimer := Some (Num 20000)\<rparr>) = []"
    by (simp add: example_client_def)
  have e: "parseDuration ''600h'' = \<lparr>isValid = True, milliseconds = 2160000000\<rparr>"
    by code_simp
  have f: "updatePools js_parseInt [''x-ratelimit-reset-requests'' \<mapsto> ''600h'']
        (example_client\<lparr>debug := True\<rparr>)
       = Inr (example_client
               \<lparr> requestTimer := Some (Num 1), debug := True,
                 console := [RequestResetWarning \<lparr>isValid = True, milliseconds = 2160000000\<rparr>
                               ''gpt-4''] \<rparr>)"
    by code_simp
  from a b c d e f show ?thesis by (simp only: simp_thms)
qed

text \<open>
  Claim C9. \<open>createChatCompletion\<close> calls \<open>enqueue\<close> with the estimated cost 1000
  when the model supports images, whatever the messages; otherwise with
  \<open>countTokens\<close> of the JSON text of the messages of the request, so that two requests
  with the same messages have the same cost, whatever their options.
\<close>

theorem estimated_cost:
  "fst (createChatCompletion countTokens stringify crd request) =
     (if supportsImages crd = Some True then 1000
      else countTokens (stringify (messages request)))
   \<and> p_messages (snd (createChatCompletion countTokens stringify crd request)) = messages request
   \<and> (messages request' = messages request \<longrightarrow>
        fst (createChatCompletion countTokens stringify crd request') =
        fst (createChatCompletion countTokens stringify crd request))"
proof -
  have cost: "\<And>r. fst (createChatCompletion countTokens stringify crd r) =
     (if supportsImages crd = Some True then 1000 else countTokens (stringify (messages r)))"
    by (simp add: createChatCompletion_def estimateTokens_def Let_def)
  have sent: "p_messages (snd (createChatCompletion countTokens stringify crd request))
      = messages request"
    by (simp add: createChatCompletion_def Let_def)
  have same: "messages request' = messages request \<longrightarrow>
        fst (createChatCompletion countTokens stringify crd request') =
        fst (createChatCompletion countTokens stringify crd request)"
    by (simp add: cost)
  from cost [of request] sent same show ?thesis by (simp only: simp_thms)
qed

text \<open>
  A model with images and one without, with the length of the text standing for the
  tokenizer; options change nothing.
\<close>

theorem estimated_cost_witness:
  "fst (createChatCompletion length concat
          \<lparr>checkpoint = ''gpt-4-vision-preview'', supportsImages = Some True\<rparr>
          (\<lparr>options = None, model = ''gpt-4v'', messages = [''hello'', ''world'']\<rparr>
             :: (string, int, string) ChatCompletionRequest)) = 1000
   \<and> fst (createChatCompletion length concat \<lparr>checkpoint = ''gpt-4'', supportsImages = None\<rparr>
          (\<lparr>options = None, model = ''gpt-4'', messages = [''hello'', ''world'']\<rparr>
             :: (string, int, string) ChatCompletionRequest)) = 10
   \<and> fst (createChatCompletion length concat \<lparr>checkpoint = ''gpt-4'', supportsImages = None\<rparr>
          \<lparr>options = Some \<lparr>tools = Some ''t'', response_format = None, temperature = (1::int),
                           max_tokens = Some 5\<rparr>,
            model = ''gpt-4'', messages = [''hello'', ''world'']\<rparr>) = 10"
proof -
  let ?plain = "\<lparr>options = None, model = ''gpt-4'', messages = [''hello'', ''world'']\<rparr>
                  :: (string, int, string) ChatCompletionRequest"
  let ?opts = "\<lparr>options = Some \<lparr>tools = Some ''t'', response_format = None,
                                   temperature = (1::int), max_tokens = Some 5\<rparr>,
                 model = ''gpt-4'', messages = [''hello'', ''world'']\<rparr>"
  let ?vision = "\<lparr>checkpoint = ''gpt-4-vision-preview'', supportsImages = Some True\<rparr>"
  let ?text = "\<lparr>checkpoint = ''gpt-4'', supportsImages = None\<rparr>"
  let ?seen = "\<lparr>options = None, model = ''gpt-4v'', messages = [''hello'', ''world'']\<rparr>
                 :: (string, int, string) ChatCompletionRequest"
  have a: "fst (createChatCompletion length concat ?vision ?seen) = 1000"
    using estimated_cost [where countTokens = length and stringify = concat and crd = ?vision
        and request = ?seen and request' = ?seen]
    by simp
  have b: "fst (createChatCompletion length concat ?text ?plain) = 10"
    using estimated_cost [where countTokens = length and stringify = concat and crd = ?text
        and request = ?plain and request' = ?plain]
    by simp
  have "messages ?opts = messages ?plain" by simp
  with estimated_cost [where countTokens = length and stringify = concat and crd = ?text
        and request = ?plain and request' = ?opts] b
  have c: "fst (createChatCompletion length concat ?text ?opts) = 10" by (simp only:)
  from a b c show ?thesis by (simp only: simp_thms)
qed

text \<open>
  Claim C10, amended: in an input of at most 64 characters, a run of more than five digits
  immediately followed by a unit is not rejected; the token matched there has exactly the
  last five digits of the run as its integer. The run \<open>ds\<close> is preceded by \<open>pre\<close>,
  which does not end in a digit, and followed by \<open>U\<close>, in either case the unit \<open>u\<close>
  that the alternation takes, and by \<open>post\<close>. \<open>123456s\<close> gives 23456 seconds.
\<close>

theorem digit_run_reanchors:
  assumes "list_all isDigit ds" and "5 < length ds"
    and "pre = [] \<or> \<not> isDigit (last pre)"
    and "toLowerCase U = u"
    and "match_unit (u @ toLowerCase post) = Some (u, toLowerCase post)"
    and "length (pre @ ds @ U @ post) \<le> 64"
  shows "matched_tokens (pre @ ds @ U @ post) =
           matched_tokens pre @ [(digitsValue (drop (length ds - 5) ds), u)] @ matched_tokens post
         \<and> (pre = [] \<and> post = [] \<longrightarrow>
              parseDuration (ds @ U) =
                \<lparr> isValid = True,
                  milliseconds = int (digitsValue (drop (length ds - 5) ds)) * unit_ms u \<rparr>)"
proof -
  from match_unit_sound [OF assms(5)] have u: "u \<in> {''h'', ''ms'', ''m'', ''s''}" by simp
  from assms(2) have ne: "ds \<noteq> []" by auto
  have low: "toLowerCase (pre @ ds @ U @ post) = toLowerCase pre @ (ds @ u @ toLowerCase post)"
    using toLowerCase_digits [OF assms(1)] assms(4)
    by (simp add: toLowerCase_append)
  have "toLowerCase pre = [] \<or> \<not> isDigit (last (toLowerCase pre))"
    using assms(3) by (auto simp: toLowerCase_def last_map isDigit_toLowerChar)
  moreover from ne assms(1) have "isDigit (hd (ds @ u @ toLowerCase post))"
    by (cases ds) simp_all
  ultimately have "digit_boundary (toLowerCase pre) (ds @ u @ toLowerCase post)"
    by (simp add: digit_boundary_def)
  from match_all_append [OF this] match_all_run_post [OF assms(5) assms(1) ne] low
  have "match_all (toLowerCase (pre @ ds @ U @ post)) =
          match_all (toLowerCase pre) @ (drop (length ds - 5) ds @ u) # match_all (toLowerCase post)"
    by simp
  moreover from assms(1) have "list_all isDigit (drop (length ds - 5) ds)"
    by (simp add: list_all_iff) (metis in_set_dropD)
  ultimately have t: "tokens (pre @ ds @ U @ post) =
      tokens pre @ [(digitsValue (drop (length ds - 5) ds), u)] @ tokens post"
    using token_of_good [OF _ u] by (simp add: tokens_def)
  moreover from assms(6) have "length pre \<le> 64" "length post \<le> 64" by simp_all
  ultimately have a: "matched_tokens (pre @ ds @ U @ post) =
           matched_tokens pre @ [(digitsValue (drop (length ds - 5) ds), u)] @ matched_tokens post"
    using assms(6) by (simp add: matched_tokens_def)
  have b: "pre = [] \<and> post = [] \<longrightarrow>
              parseDuration (ds @ U) =
                \<lparr> isValid = True,
                  milliseconds = int (digitsValue (drop (length ds - 5) ds)) * unit_ms u \<rparr>"
  proof
    assume e: "pre = [] \<and> post = []"
    have "tokens [] = []" by (simp add: tokens_def toLowerCase_def)
    with t e have "tokens (ds @ U) = [(digitsValue (drop (length ds - 5) ds), u)]" by simp
    moreover from e assms(6) have "length (ds @ U) \<le> 64" by simp
    ultimately show "parseDuration (ds @ U) =
                \<lparr> isValid = True,
                  milliseconds = int (digitsValue (drop (length ds - 5) ds)) * unit_ms u \<rparr>"
      using parseDuration_tokens [of "ds @ U"] u
      by (auto simp: last_value_single unit_ms_def)
  qed
  from a b show ?thesis by (simp only: simp_thms)
qed

text \<open>
  The run \<open>123456\<close> before a capital \<open>S\<close>, after a prefix with a token of its own;
  and \<open>123456s\<close> alone.
\<close>

theorem digit_run_reanchors_witness:
  "matched_tokens ''3h, then 123456S'' = [(3, ''h''), (23456, ''s'')]
   \<and> parseDuration ''123456s'' = \<lparr>isValid = True, milliseconds = 23456 * 1000\<rparr>"
proof -
  have h: "list_all isDigit ''123456''" "5 < length ''123456''"
    "match_unit (''s'' @ toLowerCase []) = Some (''s'', toLowerCase [])"
    "toLowerCase ''S'' = ''s''" "toLowerCase ''s'' = ''s''"
    by code_simp+
  have p: "''3h, then '' = [] \<or> \<not> isDigit (last ''3h, then '')" by (simp add: isDigit_def)
  have q: "([]::string) = [] \<or> \<not> isDigit (last [])" by simp
  have l: "length (''3h, then '' @ ''123456'' @ ''S'' @ []) \<le> 64"
    "length ([] @ ''123456'' @ ''s'' @ []) \<le> 64" by simp_all
  have t: "matched_tokens ''3h, then '' = [(3, ''h'')]" "matched_tokens [] = []"
    by code_simp+
  have v: "digitsValue (drop (length ''123456'' - 5) ''123456'') = 23456"
    by (simp add: digitsValue_def digitValue_def)
  have s: "''3h, then '' @ ''123456'' @ ''S'' @ [] = ''3h, then 123456S''"
    "''123456'' @ ''s'' = ''123456s''" by simp_all
  from digit_run_reanchors [OF h(1,2) p h(4) h(3) l(1)]
  have "matched_tokens (''3h, then '' @ ''123456'' @ ''S'' @ []) =
          matched_tokens ''3h, then '' @
          [(digitsValue (drop (length ''123456'' - 5) ''123456''), ''s'')] @ matched_tokens []"
    by (rule conjunct1)
  then have a: "matched_tokens ''3h, then 123456S'' = [(3, ''h''), (23456, ''s'')]"
    unfolding t v s by simp
  from digit_run_reanchors [OF h(1,2) q h(5) h(3) l(2)]
  have "parseDuration (''123456'' @ ''s'') =
          \<lparr> isValid = True,
            milliseconds = int (digitsValue (drop (length ''123456'' - 5) ''123456'')) * unit_ms ''s'' \<rparr>"
    by blast
  then have b: "parseDuration ''123456s'' = \<lparr>isValid = True, milliseconds = 23456 * 1000\<rparr>"
    unfolding t v s by (simp add: unit_ms_def)
  from a b show ?thesis by (simp only: simp_thms)
qed

text \<open>
  Claim C10 as stated fails on an input of 65 characters that ends in \<open>123456s\<close>: the
  check of the length returns a zero duration before any match.
\<close>

theorem long_input_run_rejected:
  "length (replicate 58 (CHR ''x'') @ ''123456s'') = 65
   \<and> parseDuration (replicate 58 (CHR ''x'') @ ''123456s'') = \<lparr>isValid = True, milliseconds = 0\<rparr>"
  by (simp add: parseDuration_too_long)

end
